theory Spec2Isabelle
  imports Main
begin

section \<open>Library functions the rolling writer calls\<close>

text \<open>
  Go strings are byte sequences; they are modelled as \<open>string\<close> (a list of 8-bit
  characters). The functions of this section are not code of the repository: they are the
  parts of Go's \<open>strings\<close>, \<open>strconv\<close> and \<open>path\<close> packages that the repository
  calls, written after the library's own sources.
\<close>

subsection \<open>strings.ToUpper and strings.Contains\<close>

definition is_ascii :: "string \<Rightarrow> bool" where
  "is_ascii s = list_all (\<lambda>c. (of_char c :: nat) < 128) s"

text \<open>
  \<open>strings.ToUpper\<close> on ASCII input: the letters a-z move to A-Z, every other byte stays.
  On input with bytes above 127 Go maps whole Unicode code points; the model covers the ASCII
  case only, and the theorems about arbitrary size strings assume \<open>is_ascii\<close>.
\<close>

definition upper_char :: "char \<Rightarrow> char" where
  "upper_char c =
     (let n = (of_char c :: nat)
      in if 97 \<le> n \<and> n \<le> 122 then char_of (n - 32) else c)"

definition ToUpper :: "string \<Rightarrow> string" where
  "ToUpper s = map upper_char s"

fun HasPrefix :: "string \<Rightarrow> string \<Rightarrow> bool" where
  "HasPrefix s [] = True"
| "HasPrefix [] (p # ps) = False"
| "HasPrefix (c # cs) (p # ps) = (c = p \<and> HasPrefix cs ps)"

fun Contains :: "string \<Rightarrow> string \<Rightarrow> bool" where
  "Contains [] sub = (sub = [])"
| "Contains (c # cs) sub = (HasPrefix (c # cs) sub \<or> Contains cs sub)"

subsection \<open>strconv.Atoi\<close>

datatype num_error = ErrSyntax | ErrRange

definition is_digit :: "char \<Rightarrow> bool" where
  "is_digit c = (48 \<le> (of_char c :: nat) \<and> (of_char c :: nat) \<le> 57)"

definition digit_val :: "char \<Rightarrow> int" where
  "digit_val c = int (of_char c) - 48"

definition maxUint64 :: int where
  "maxUint64 = 18446744073709551615"

definition cutoff10 :: int where
  "cutoff10 = maxUint64 div 10 + 1"

text \<open>
  Values of \<open>uint64\<close> are integers here, with the bound written out.
  The digit loop of \<open>strconv.ParseUint(s, 10, 64)\<close>. A byte that is no decimal digit is a
  syntax error with value 0; an overflow is a range error with the largest value, reported
  at the digit where it happens, before the bytes after it are looked at.
\<close>

fun parse_uint_loop :: "int \<Rightarrow> string \<Rightarrow> int \<times> num_error option" where
  "parse_uint_loop n [] = (n, None)"
| "parse_uint_loop n (c # cs) =
     (if \<not> is_digit c then (0, Some ErrSyntax)
      else if cutoff10 \<le> n then (maxUint64, Some ErrRange)
      else (let n1 = n * 10 + digit_val c
            in if maxUint64 < n1 then (maxUint64, Some ErrRange)
               else parse_uint_loop n1 cs))"

definition ParseUint :: "string \<Rightarrow> int \<times> num_error option" where
  "ParseUint s = (if s = [] then (0, Some ErrSyntax) else parse_uint_loop 0 s)"

text \<open>\<open>strconv.ParseInt(s, 10, 0)\<close> where \<open>int\<close> has 64 bits.\<close>

definition ParseInt :: "string \<Rightarrow> int \<times> num_error option" where
  "ParseInt s0 =
     (if s0 = [] then (0, Some ErrSyntax)
      else
        (let neg = (hd s0 = CHR ''-'');
             s = (if hd s0 = CHR ''+'' \<or> hd s0 = CHR ''-'' then tl s0 else s0);
             (un, err) = ParseUint s;
             cutoff = (2 :: int) ^ 63
         in if err = Some ErrSyntax then (0, Some ErrSyntax)
            else if \<not> neg \<and> cutoff \<le> un then (cutoff - 1, Some ErrRange)
            else if neg \<and> cutoff < un then (- cutoff, Some ErrRange)
            else (if neg then - un else un, None)))"

text \<open>The fast path of \<open>strconv.Atoi\<close> for strings shorter than 19 bytes.\<close>

fun atoi_fast_loop :: "int \<Rightarrow> string \<Rightarrow> int option" where
  "atoi_fast_loop n [] = Some n"
| "atoi_fast_loop n (ch # cs) =
     (if \<not> is_digit ch then None else atoi_fast_loop (n * 10 + digit_val ch) cs)"

definition Atoi :: "string \<Rightarrow> int \<times> num_error option" where
  "Atoi s0 =
     (if 0 < length s0 \<and> length s0 < 19 then
        (let signed = (hd s0 = CHR ''-'' \<or> hd s0 = CHR ''+'');
             s = (if signed then tl s0 else s0)
         in if signed \<and> length s < 1 then (0, Some ErrSyntax)
            else (case atoi_fast_loop 0 s of
                    None \<Rightarrow> (0, Some ErrSyntax)
                  | Some n \<Rightarrow> (if hd s0 = CHR ''-'' then - n else n, None)))
      else ParseInt s0)"

subsection \<open>path.Clean and path.Join\<close>

text \<open>
  \<open>path.Clean\<close> walks the path once, writing to a buffer \<open>out\<close>; \<open>dotdot\<close> is the
  length of the prefix of \<open>out\<close> that a \<open>..\<close> element must not remove. The loop below
  takes the unread rest of the path instead of the read index.
\<close>

function backtrack_w :: "string \<Rightarrow> nat \<Rightarrow> nat \<Rightarrow> nat" where
  "backtrack_w out dotdot w =
     (if dotdot < w \<and> out ! w \<noteq> CHR ''/'' then backtrack_w out dotdot (w - 1) else w)"
  by pat_completeness auto
termination
  by (relation "measure (\<lambda>(out, dotdot, w). w)") auto

declare backtrack_w.simps [simp del]

function clean_loop :: "bool \<Rightarrow> string \<Rightarrow> nat \<Rightarrow> string \<Rightarrow> string" where
  "clean_loop rooted out dotdot p =
     (case p of
        [] \<Rightarrow> out
      | c # cs \<Rightarrow>
          if c = CHR ''/'' then clean_loop rooted out dotdot cs
          else if c = CHR ''.'' \<and> (cs = [] \<or> hd cs = CHR ''/'') then
            clean_loop rooted out dotdot cs
          else if c = CHR ''.'' \<and> cs \<noteq> [] \<and> hd cs = CHR ''.'' \<and>
                  (tl cs = [] \<or> hd (tl cs) = CHR ''/'') then
            (if dotdot < length out then
               clean_loop rooted (take (backtrack_w out dotdot (length out - 1)) out) dotdot (tl cs)
             else if \<not> rooted then
               (let out' = (if 0 < length out then out @ ''/'' else out) @ ''..''
                in clean_loop rooted out' (length out') (tl cs))
             else clean_loop rooted out dotdot (tl cs))
          else
            (let out' = (if rooted \<and> length out \<noteq> 1 \<or> \<not> rooted \<and> length out \<noteq> 0
                         then out @ ''/'' else out)
             in clean_loop rooted (out' @ takeWhile (\<lambda>x. x \<noteq> CHR ''/'') (c # cs)) dotdot
                  (dropWhile (\<lambda>x. x \<noteq> CHR ''/'') (c # cs))))"
  by pat_completeness auto
termination
  by (relation "measure (\<lambda>(rooted, out, dotdot, p). length p)")
    (auto simp: le_imp_less_Suc [OF length_dropWhile_le])

declare clean_loop.simps [simp del]

definition Clean :: "string \<Rightarrow> string" where
  "Clean path =
     (if path = [] then ''.''
      else
        (let rooted = (hd path = CHR ''/'');
             out = (if rooted then clean_loop True ''/'' 1 (tl path)
                    else clean_loop False [] 0 path)
         in if out = [] then ''.'' else out))"

fun join_loop :: "string \<Rightarrow> string list \<Rightarrow> string" where
  "join_loop buf [] = buf"
| "join_loop buf (e # es) =
     (if 0 < length buf \<or> e \<noteq> []
      then join_loop ((if 0 < length buf then buf @ ''/'' else buf) @ e) es
      else join_loop buf es)"

definition Join :: "string list \<Rightarrow> string" where
  "Join elem =
     (if sum_list (map length elem) = 0 then [] else Clean (join_loop [] elem))"

section \<open>Configuration\<close>

record Config =
  TimeTagFormat :: string
  LogPath :: string
  FileName :: string
  MaxRemain :: int
  RollingPolicy :: int
  RollingTimePattern :: string
  RollingVolumeSize :: string
  WriterMode :: string
  BufferWriterThreshold :: int
  Compress :: bool

definition WithoutRolling :: int where "WithoutRolling = 0"
definition TimeRolling :: int where "TimeRolling = 1"
definition VolumeRolling :: int where "VolumeRolling = 2"

definition BufferSize :: nat where "BufferSize = 1048576"
definition QueueSize :: nat where "QueueSize = 1024"

definition NewDefaultConfig :: Config where
  "NewDefaultConfig =
     \<lparr> TimeTagFormat = ''200601021504'', LogPath = ''./log'', FileName = ''log'',
       MaxRemain = - 1, RollingPolicy = 1, RollingTimePattern = ''0 0 * * *'',
       RollingVolumeSize = ''1G'', WriterMode = ''lock'', BufferWriterThreshold = 64,
       Compress = False \<rparr>"

definition LogFilePath :: "Config \<Rightarrow> string" where
  "LogFilePath c = Join [LogPath c, FileName c] @ ''.log''"

section \<open>The rotation manager\<close>

text \<open>
  A value of Go's \<open>time.Time\<close> is an instant, here an integer; \<open>Time.Format\<close> and
  \<open>time.Now\<close> are arguments of the functions that call them. The channel \<open>fire\<close> is
  unbuffered: its state is the file name that a blocked sender is offering, if any (a
  manager made for volume rolling has one sender, its poller). The channel \<open>context\<close> is
  only ever closed; its state is whether it has been. Of the cron scheduler the model keeps
  the registered patterns and whether it runs (the runs of the registered function, each a
  goroutine of its own that sends on \<open>fire\<close>, are not part of the model), of the size
  poller whether its goroutine exists and has returned. The two mutexes and wait groups
  only order concurrent callers and are left out: each function is one call running alone.
\<close>

type_synonym time = int

datatype poller_state = NoPoller | PollerRunning | PollerExited

record manager =
  thresholdSize :: int
  startAt :: time
  fire :: "string option"
  cr_entries :: "string list"
  cr_running :: bool
  context_closed :: bool
  poller :: poller_state

datatype go_panic = SliceBoundsOutOfRange | CloseOfClosedChannel

text \<open>A product of two \<open>int64\<close> values wraps around.\<close>

definition wrap_int64 :: "int \<Rightarrow> int" where
  "wrap_int64 x = (x + 2 ^ 63) mod 2 ^ 64 - 2 ^ 63"

text \<open>
  The \<open>switch unitstr\<close> of ParseVolume: the case that matches is the entry point, and
  every case falls through to the ones below it; \<open>default\<close> stands first and falls into
  the \<open>T\<close> case.
\<close>

datatype unit_case = CaseT | CaseG | CaseM | CaseK

definition unit_entry :: "string \<Rightarrow> unit_case" where
  "unit_entry unitstr =
     (if unitstr = ''T'' \<or> unitstr = ''TB'' then CaseT
      else if unitstr = ''G'' \<or> unitstr = ''GB'' then CaseG
      else if unitstr = ''M'' \<or> unitstr = ''MB'' then CaseM
      else if unitstr = ''K'' \<or> unitstr = ''KB'' then CaseK
      else CaseT)"

definition case_K :: "int \<Rightarrow> int" where
  "case_K u = wrap_int64 (u * 1024)"

definition case_M :: "int \<Rightarrow> int" where
  "case_M u = case_K (wrap_int64 (u * 1024))"

definition case_G :: "int \<Rightarrow> int" where
  "case_G u = case_M (wrap_int64 (u * 1024))"

definition case_T :: "int \<Rightarrow> int" where
  "case_T u = case_G (wrap_int64 (u * 1024))"

definition unit_fallthrough :: "unit_case \<Rightarrow> int \<Rightarrow> int" where
  "unit_fallthrough e u =
     (case e of CaseT \<Rightarrow> case_T u | CaseG \<Rightarrow> case_G u | CaseM \<Rightarrow> case_M u | CaseK \<Rightarrow> case_K u)"

text \<open>
  \<open>s[:len(s)-k]\<close> panics when \<open>k\<close> exceeds the length; the model returns the panic.
\<close>

definition slice_to_end_minus :: "string \<Rightarrow> nat \<Rightarrow> go_panic + string" where
  "slice_to_end_minus s k =
     (if length s < k then Inl SliceBoundsOutOfRange else Inr (take (length s - k) s))"

definition has_unit :: "string \<Rightarrow> bool" where
  "has_unit s =
     (Contains s ''K'' \<or> Contains s ''KB'' \<or>
      Contains s ''M'' \<or> Contains s ''MB'' \<or>
      Contains s ''G'' \<or> Contains s ''GB'' \<or>
      Contains s ''T'' \<or> Contains s ''TB'')"

definition ParseVolume :: "manager \<Rightarrow> Config \<Rightarrow> go_panic + manager" where
  "ParseVolume m c =
     (let s = ToUpper (RollingVolumeSize c)
      in if \<not> has_unit s then Inr (m\<lparr>thresholdSize := 1024 * 1024 * 1024\<rparr>)
         else
           (case slice_to_end_minus s 1 of
              Inl e \<Rightarrow> Inl e
            | Inr lead1 \<Rightarrow>
                if s = [] then Inl SliceBoundsOutOfRange
                else if last s = CHR ''B'' then
                  (case slice_to_end_minus s 2 of
                     Inl e \<Rightarrow> Inl e
                   | Inr lead2 \<Rightarrow>
                       Inr (m\<lparr>thresholdSize :=
                         wrap_int64 (fst (Atoi lead2) *
                           unit_fallthrough (unit_entry (drop (length s - 2) s)) 1)\<rparr>))
                else
                  Inr (m\<lparr>thresholdSize :=
                    wrap_int64 (fst (Atoi lead1) * unit_fallthrough (unit_entry [last s]) 1)\<rparr>)))"

definition dec_value :: "string \<Rightarrow> int" where
  "dec_value ds = foldl (\<lambda>a c. a * 10 + digit_val c) 0 ds"

text \<open>
  The prefix of the upper-cased size string that ParseVolume hands to \<open>Atoi\<close> last: all
  but the final byte, or all but the final two bytes when the final byte is \<open>B\<close>.
\<close>

definition volume_lead :: "string \<Rightarrow> string" where
  "volume_lead s =
     (if s \<noteq> [] \<and> last s = CHR ''B'' then take (length s - 2) s else take (length s - 1) s)"

text \<open>The multipliers as the specification words them: binary, with an optional B.\<close>

definition binary_multiplier :: "string \<Rightarrow> int option" where
  "binary_multiplier u =
     (if u = ''K'' \<or> u = ''KB'' then Some 1024
      else if u = ''M'' \<or> u = ''MB'' then Some (1024 ^ 2)
      else if u = ''G'' \<or> u = ''GB'' then Some (1024 ^ 3)
      else if u = ''T'' \<or> u = ''TB'' then Some (1024 ^ 4)
      else None)"

definition GenLogFileName ::
  "(time \<Rightarrow> string \<Rightarrow> string) \<Rightarrow> time \<Rightarrow> manager \<Rightarrow> Config \<Rightarrow> string \<times> manager" where
  "GenLogFileName Format now m c =
     (let filename =
        (if Compress c
         then Join [LogPath c, FileName c @ ''.log.gz.'' @ Format (startAt m) (TimeTagFormat c)]
         else Join [LogPath c, FileName c @ ''.log.'' @ Format (startAt m) (TimeTagFormat c)])
      in (filename, m\<lparr>startAt := now\<rparr>))"

text \<open>
  \<open>NewManager\<close>. \<open>cron_accepts\<close> tells whether the cron library parses a pattern. The
  poller's goroutine is not run here: its loop body is \<open>poller_select\<close>.
\<close>

datatype go_error =
    ErrInternal | ErrClosed | ErrInvalidArgument | CronParseError
  | ErrNotExist | ErrFileClosed | OsError nat

definition NewManager :: "(string \<Rightarrow> bool) \<Rightarrow> time \<Rightarrow> Config \<Rightarrow> go_panic + go_error + manager" where
  "NewManager cron_accepts now c =
     (let m = \<lparr> thresholdSize = 0, startAt = now, fire = None, cr_entries = [],
                 cr_running = False, context_closed = False, poller = NoPoller \<rparr>
      in if RollingPolicy c = TimeRolling then
           (if cron_accepts (RollingTimePattern c)
            then Inr (Inr (m\<lparr>cr_entries := [RollingTimePattern c], cr_running := True\<rparr>))
            else Inr (Inl CronParseError))
         else if RollingPolicy c = VolumeRolling then
           (case ParseVolume m c of
              Inl p \<Rightarrow> Inl p
            | Inr m' \<Rightarrow> Inr (Inr (m'\<lparr>poller := PollerRunning\<rparr>)))
         else Inr (Inr m))"

text \<open>
  One pass of the poller's loop, from its \<open>select\<close>. The poller is the only sender of a
  manager made for volume rolling, and its send \<open>m.fire <- \<dots>\<close> blocks until a writer
  receives: while a name is on offer the poller is inside that send and takes no pass.
  \<open>take_context\<close> is the scheduler's choice when both cases are ready; the \<open>context\<close>
  case is ready only once the channel is closed, the timer case only when a tick is due.
  \<open>stat\<close> is the size that \<open>os.Open\<close> and \<open>file.Stat\<close> report, \<open>None\<close> when
  either fails. The send on \<open>fire\<close> leaves the name on offer until a writer receives it.
\<close>

definition poller_select ::
  "(time \<Rightarrow> string \<Rightarrow> string) \<Rightarrow> time \<Rightarrow> Config \<Rightarrow> bool \<Rightarrow> bool \<Rightarrow> int option \<Rightarrow> manager \<Rightarrow> manager" where
  "poller_select Format now c take_context tick stat m =
     (if poller m \<noteq> PollerRunning \<or> fire m \<noteq> None then m
      else if context_closed m \<and> (take_context \<or> \<not> tick) then m\<lparr>poller := PollerExited\<rparr>
      else if tick then
        (case stat of
           None \<Rightarrow> m
         | Some sz \<Rightarrow>
             if thresholdSize m < sz
             then (let (filename, m') = GenLogFileName Format now m c
                   in m'\<lparr>fire := Some filename\<rparr>)
             else m)
      else m)"

text \<open>\<open>manager.Close\<close>: closing a closed channel panics, before the scheduler is stopped.\<close>

definition Close_manager :: "manager \<Rightarrow> go_panic + manager" where
  "Close_manager m =
     (if context_closed m then Inl CloseOfClosedChannel
      else Inr (m\<lparr>context_closed := True, cr_running := False\<rparr>))"

section \<open>The operating system\<close>

text \<open>
  Files are inodes holding bytes; a directory entry maps a path to an inode, and an open
  \<open>*os.File\<close> is a handle that maps to an inode and stays valid when the entry is renamed.
  Every call can also fail for a reason outside the model (permissions, a full disk): the
  field \<open>faults\<close> gives the error number that a call fails with, if it does. \<open>logs\<close> holds
  the lines written with \<open>log.Println\<close>, \<open>spawned\<close> the goroutines that \<open>Reopen\<close> has
  started and that have not run yet (the previous handle and the historical file name).
\<close>

type_synonym fd = nat

datatype os_call =
    CallRename string string | CallOpenFile string | CallWrite fd | CallClose fd
  | CallRemove string | CallSeek fd | CallRead fd

record os_state =
  names :: "string \<Rightarrow> nat option"
  contents :: "nat \<Rightarrow> string"
  handles :: "fd \<Rightarrow> nat option"
  next_id :: nat
  faults :: "os_call \<Rightarrow> nat option"
  logs :: "string list"
  spawned :: "(fd \<times> string) list"

definition os_Rename :: "string \<Rightarrow> string \<Rightarrow> os_state \<Rightarrow> go_error option \<times> os_state" where
  "os_Rename old new st =
     (case faults st (CallRename old new) of
        Some n \<Rightarrow> (Some (OsError n), st)
      | None \<Rightarrow>
          (case names st old of
             None \<Rightarrow> (Some ErrNotExist, st)
           | Some i \<Rightarrow> (None, st\<lparr>names := (names st)(old := None, new := Some i)\<rparr>)))"

text \<open>\<open>os.OpenFile\<close> with the flags \<open>O_RDWR|O_CREATE|O_APPEND\<close> that the package uses.\<close>

definition os_OpenFile :: "string \<Rightarrow> os_state \<Rightarrow> (go_error + fd) \<times> os_state" where
  "os_OpenFile path st =
     (case faults st (CallOpenFile path) of
        Some n \<Rightarrow> (Inl (OsError n), st)
      | None \<Rightarrow>
          (case names st path of
             Some i \<Rightarrow>
               (Inr (next_id st),
                st\<lparr>handles := (handles st)(next_id st := Some i), next_id := next_id st + 1\<rparr>)
           | None \<Rightarrow>
               (Inr (next_id st + 1),
                st\<lparr>names := (names st)(path := Some (next_id st)),
                   contents := (contents st)(next_id st := []),
                   handles := (handles st)(next_id st + 1 := Some (next_id st)),
                   next_id := next_id st + 2\<rparr>)))"

text \<open>\<open>(*os.File).Write\<close> in append mode: the count written and the error.\<close>

definition file_Write :: "fd \<Rightarrow> string \<Rightarrow> os_state \<Rightarrow> (nat \<times> go_error option) \<times> os_state" where
  "file_Write f b st =
     (case handles st f of
        None \<Rightarrow> ((0, Some ErrFileClosed), st)
      | Some i \<Rightarrow>
          (case faults st (CallWrite f) of
             Some n \<Rightarrow> ((0, Some (OsError n)), st)
           | None \<Rightarrow> ((length b, None), st\<lparr>contents := (contents st)(i := contents st i @ b)\<rparr>)))"

definition file_Close :: "fd \<Rightarrow> os_state \<Rightarrow> go_error option \<times> os_state" where
  "file_Close f st =
     (case handles st f of
        None \<Rightarrow> (Some ErrFileClosed, st)
      | Some i \<Rightarrow>
          (case faults st (CallClose f) of
             Some n \<Rightarrow> (Some (OsError n), st\<lparr>handles := (handles st)(f := None)\<rparr>)
           | None \<Rightarrow> (None, st\<lparr>handles := (handles st)(f := None)\<rparr>)))"



section \<open>The writers\<close>

subsection \<open>Channels\<close>

text \<open>
  A buffered channel is its capacity and the values it holds, oldest first. A \<open>select\<close>
  with a \<open>default\<close> case sends only when there is room and receives only when there is a
  value. A channel variable that was never made is \<open>nil\<close>, here \<open>None\<close>: no send and no
  receive on it ever proceeds.
\<close>

record 'a chan =
  cap :: nat
  items :: "'a list"





subsection \<open>Writer\<close>

text \<open>
  The struct \<open>Writer\<close>. Its field \<open>fire\<close> is the manager's channel \<open>fire\<close> itself
  (\<open>mng.Fire()\<close>), so the model reads and writes \<open>fire (m w)\<close>. \<open>file\<close> is the handle of
  the active file. The writers that embed \<open>Writer\<close> are record extensions, and the
  functions of \<open>Writer\<close> that they inherit work on every extension.
\<close>

record Writer =
  m :: manager
  "file" :: fd
  absPath :: string
  cf :: Config
  rollingfilech :: "string chan option"










text \<open>
  \<open>Reopen\<close>. \<open>hist\<close> is the name of the historical file. The goroutine it starts is
  recorded in \<open>spawned\<close>; its body is \<open>reopen_background\<close>.
\<close>

definition Reopen ::
  "string \<Rightarrow> 'a Writer_scheme \<Rightarrow> os_state \<Rightarrow> go_error option \<times> 'a Writer_scheme \<times> os_state" where
  "Reopen hist w st =
     (case os_Rename (absPath w) hist st of
        (Some err, st1) \<Rightarrow> (Some err, w, st1)
      | (None, st1) \<Rightarrow>
          (case os_OpenFile (absPath w) st1 of
             (Inl err, st2) \<Rightarrow> (Some err, w, st2)
           | (Inr newfile, st2) \<Rightarrow>
               (None, w\<lparr>file := newfile\<rparr>,
                st2\<lparr>spawned := spawned st2 @ [(file w, hist)]\<rparr>)))"



text \<open>
  The \<open>select\<close> at the head of \<open>Write\<close>: the receive from \<open>fire\<close> proceeds when the manager
  is offering a name, and takes it; otherwise the default case runs.
\<close>

definition poll_fire :: "'a Writer_scheme \<Rightarrow> (string \<times> 'a Writer_scheme) option" where
  "poll_fire w =
     (case fire (m w) of
        None \<Rightarrow> None
      | Some filename \<Rightarrow> Some (filename, w\<lparr>m := (m w)\<lparr>fire := None\<rparr>\<rparr>))"

definition Writer_Write ::
  "string \<Rightarrow> Writer \<Rightarrow> os_state \<Rightarrow> (nat \<times> go_error option) \<times> Writer \<times> os_state" where
  "Writer_Write b w st =
     (case poll_fire w of
        Some (filename, w1) \<Rightarrow>
          (case Reopen filename w1 st of
             (Some err, w2, st2) \<Rightarrow> ((0, Some err), w2, st2)
           | (None, w2, st2) \<Rightarrow>
               (case file_Write (file w2) b st2 of (r, st3) \<Rightarrow> (r, w2, st3)))
      | None \<Rightarrow> (case file_Write (file w) b st of (r, st1) \<Rightarrow> (r, w, st1)))"

definition Writer_Close :: "Writer \<Rightarrow> os_state \<Rightarrow> go_error option \<times> os_state" where
  "Writer_Close w st = file_Close (file w) st"

subsection \<open>LockedWriter\<close>

text \<open>
  The mutex is held or not. \<open>Lock\<close> on a held mutex waits: the call does not return
  (\<open>None\<close>) while nobody else runs. The deferred \<open>Unlock\<close> runs on every return.
\<close>

record LockedWriter = Writer +
  mutex_held :: bool

definition LockedWriter_Write ::
  "string \<Rightarrow> LockedWriter \<Rightarrow> os_state \<Rightarrow>
     ((nat \<times> go_error option) \<times> LockedWriter \<times> os_state) option" where
  "LockedWriter_Write b w0 st =
     (if mutex_held w0 then None
      else
        (let w = w0\<lparr>mutex_held := True\<rparr>
         in case poll_fire w of
              Some (filename, w1) \<Rightarrow>
                (case Reopen filename w1 st of
                   (Some err, w2, st2) \<Rightarrow> Some ((0, Some err), w2\<lparr>mutex_held := False\<rparr>, st2)
                 | (None, w2, st2) \<Rightarrow>
                     (case file_Write (file w2) b st2 of
                        (r, st3) \<Rightarrow> Some (r, w2\<lparr>mutex_held := False\<rparr>, st3)))
            | None \<Rightarrow>
                (case file_Write (file w) b st of
                   (r, st1) \<Rightarrow> Some (r, w\<lparr>mutex_held := False\<rparr>, st1))))"

definition LockedWriter_Close ::
  "LockedWriter \<Rightarrow> os_state \<Rightarrow> (go_error option \<times> LockedWriter \<times> os_state) option" where
  "LockedWriter_Close w st =
     (if mutex_held w then None
      else (case file_Close (file w) st of (r, st1) \<Rightarrow> Some (r, w, st1)))"

subsection \<open>BufferWriter\<close>

text \<open>
  \<open>buf\<close> is the slice that the pointer \<open>w.buf\<close> refers to, \<open>swaping\<close> the flush flag. The
  compare-and-swap is only reached when the buffer is longer than the threshold; what the
  write of the old buffer returns is not looked at.
\<close>

record BufferWriter = Writer +
  buf :: string
  swaping :: int

definition buffer_append :: "string \<Rightarrow> BufferWriter \<Rightarrow> os_state \<Rightarrow> BufferWriter \<times> os_state" where
  "buffer_append b w st =
     (let w1 = w\<lparr>buf := buf w @ b\<rparr>
      in if BufferWriterThreshold (cf w1) < int (length (buf w1)) \<and> swaping w1 = 0 then
           (let ob = buf w1;
                w2 = w1\<lparr>swaping := 1, buf := []\<rparr>;
                st1 = snd (file_Write (file w2) ob st)
            in (w2\<lparr>swaping := 0\<rparr>, st1))
         else (w1, st))"

definition BufferWriter_Write ::
  "string \<Rightarrow> BufferWriter \<Rightarrow> os_state \<Rightarrow> (nat \<times> go_error option) \<times> BufferWriter \<times> os_state" where
  "BufferWriter_Write b w st =
     (case poll_fire w of
        Some (filename, w1) \<Rightarrow>
          (case Reopen filename w1 st of
             (Some err, w2, st2) \<Rightarrow> ((0, Some err), w2, st2)
           | (None, w2, st2) \<Rightarrow>
               (case buffer_append b w2 st2 of (w3, st3) \<Rightarrow> ((length b, None), w3, st3)))
      | None \<Rightarrow> (case buffer_append b w st of (w1, st1) \<Rightarrow> ((length b, None), w1, st1)))"

definition BufferWriter_Close :: "BufferWriter \<Rightarrow> os_state \<Rightarrow> go_error option \<times> os_state" where
  "BufferWriter_Close w st =
     (case file_Write (file w) (buf w) st of
        ((n, Some err), st1) \<Rightarrow> (Some err, st1)
      | ((n, None), st1) \<Rightarrow> file_Close (file w) st1)"

subsection \<open>AsynchronousWriter\<close>

text \<open>
  \<open>queue\<close> holds the buffers in flight (capacity \<open>QueueSize\<close>), \<open>ctx_closed\<close> tells
  whether \<open>ctx\<close> has been closed, \<open>closed\<close> is the flag of \<open>Close\<close>. The channel
  \<open>errChan\<close> is unbuffered and its only sender is the goroutine \<open>writer\<close>, so its state is
  that goroutine's: at its \<open>select\<close>, waiting in \<open>w.errChan <- err\<close> with the buffer it
  holds, or returned. \<open>pool\<close> is \<open>_asyncBufferPool\<close>, as the lengths of the slices put
  back; \<open>Get\<close> hands out the one put back last, or a new one of \<open>BufferSize\<close> bytes.
\<close>

datatype consumer_state = AtSelect | SendingErr go_error string | Returned

record AsynchronousWriter = Writer +
  ctx_closed :: bool
  queue :: "string list"
  consumer :: consumer_state
  closed :: int
  pool :: "nat list"

definition pool_Get :: "nat list \<Rightarrow> nat \<times> nat list" where
  "pool_Get p = (case p of [] \<Rightarrow> (BufferSize, []) | n # rest \<Rightarrow> (n, rest))"

text \<open>
  The loop \<open>for len(b) > 0\<close> of the rotation case of \<open>Write\<close>: each pass sends one
  buffer to the queue; a send to a full queue waits (\<open>None\<close>).
\<close>

function enqueue_chunks ::
  "string \<Rightarrow> string list \<Rightarrow> nat list \<Rightarrow> (string list \<times> nat list) option" where
  "enqueue_chunks b q p =
     (if b = [] then Some (q, p)
      else
        (let (buflen, p1) = pool_Get p; n = min buflen (length b)
         in if length q < QueueSize then enqueue_chunks (drop n b) (q @ [take n b]) p1
            else None))"
  by pat_completeness auto
termination
  by (relation "measure (\<lambda>(b, q, p). QueueSize - length q)") auto

declare enqueue_chunks.simps [simp del]

text \<open>
  \<open>Write\<close>. When both the error channel and \<open>fire\<close> are ready, Go's \<open>select\<close> takes one
  of them at random: \<open>pick_err\<close> is that choice. Receiving the error lets the goroutine
  \<open>writer\<close> go on: it puts its buffer back and returns to its \<open>select\<close>.
\<close>

definition AsynchronousWriter_Write ::
  "bool \<Rightarrow> string \<Rightarrow> AsynchronousWriter \<Rightarrow> os_state \<Rightarrow>
     ((nat \<times> go_error option) \<times> AsynchronousWriter \<times> os_state) option" where
  "AsynchronousWriter_Write pick_err b w st =
     (if closed w = 0 then
        (let recv_err = (\<lambda>err held.
               Some ((0, Some err), w\<lparr>consumer := AtSelect, pool := length held # pool w\<rparr>, st));
             recv_fire = (\<lambda>filename w1.
               case Reopen filename w1 st of
                 (Some err, w2, st2) \<Rightarrow> Some ((0, Some err), w2, st2)
               | (None, w2, st2) \<Rightarrow>
                   (case enqueue_chunks b (queue w2) (pool w2) of
                      None \<Rightarrow> None
                    | Some (q, p) \<Rightarrow> Some ((length b, None), w2\<lparr>queue := q, pool := p\<rparr>, st2)))
         in case (consumer w, poll_fire w) of
              (SendingErr err held, Some (filename, w1)) \<Rightarrow>
                if pick_err then recv_err err held else recv_fire filename w1
            | (SendingErr err held, None) \<Rightarrow> recv_err err held
            | (_, Some (filename, w1)) \<Rightarrow> recv_fire filename w1
            | (_, None) \<Rightarrow>
                if length (queue w) < QueueSize
                then Some ((length b, None),
                           w\<lparr>queue := queue w @ [b], pool := snd (pool_Get (pool w))\<rparr>, st)
                else None)
      else Some ((0, Some ErrClosed), w, st))"

text \<open>
  \<open>onClose\<close>. Nobody waits to receive on \<open>errChan\<close> (the only receive is the \<open>select\<close> of
  \<open>Write\<close>, which has a default case), so the send of a failure takes its default case: the
  buffer is put back and the draining stops.
\<close>

fun onClose_loop ::
  "fd \<Rightarrow> string list \<Rightarrow> nat list \<Rightarrow> os_state \<Rightarrow> string list \<times> nat list \<times> os_state" where
  "onClose_loop f [] p st = ([], p, st)"
| "onClose_loop f (b # q) p st =
     (case file_Write f b st of
        ((n, Some err), st1) \<Rightarrow> (q, length b # p, st1)
      | ((n, None), st1) \<Rightarrow> onClose_loop f q (length b # p) st1)"

definition AsynchronousWriter_Close ::
  "AsynchronousWriter \<Rightarrow> os_state \<Rightarrow> go_panic + (go_error option \<times> AsynchronousWriter \<times> os_state)" where
  "AsynchronousWriter_Close w st =
     (if closed w = 0 then
        (if ctx_closed w then Inl CloseOfClosedChannel
         else
           (case onClose_loop (file w) (queue w) (pool w) st of
              (q, p, st1) \<Rightarrow>
                (case file_Close (file w) st1 of
                   (r, st2) \<Rightarrow>
                     Inr (r, w\<lparr>closed := 1, ctx_closed := True, queue := q, pool := p\<rparr>, st2))))
      else Inr (Some ErrClosed, w, st))"

text \<open>
  One pass of the loop of the goroutine \<open>writer\<close>. \<open>take_ctx\<close> is the choice of its
  \<open>select\<close> when both a buffer and the closed \<open>ctx\<close> are ready. After a failed write it
  waits in the send on \<open>errChan\<close> until a \<open>Write\<close> receives.
\<close>

definition writer_step :: "bool \<Rightarrow> AsynchronousWriter \<Rightarrow> os_state \<Rightarrow> AsynchronousWriter \<times> os_state" where
  "writer_step take_ctx w st =
     (if consumer w \<noteq> AtSelect then (w, st)
      else if ctx_closed w \<and> (take_ctx \<or> queue w = []) then (w\<lparr>consumer := Returned\<rparr>, st)
      else
        (case queue w of
           [] \<Rightarrow> (w, st)
         | b # q \<Rightarrow>
             (case file_Write (file w) b st of
                ((n, Some err), st1) \<Rightarrow> (w\<lparr>queue := q, consumer := SendingErr err b\<rparr>, st1)
              | ((n, None), st1) \<Rightarrow> (w\<lparr>queue := q, pool := length b # pool w\<rparr>, st1))))"

text \<open>A manager and configurations at which the theorems are instantiated.\<close>

definition sample_manager :: manager where
  "sample_manager =
     \<lparr> thresholdSize = 7, startAt = 1000, fire = None, cr_entries = [],
       cr_running = False, context_closed = False, poller = NoPoller \<rparr>"

definition volume_config :: "string \<Rightarrow> Config" where
  "volume_config s = NewDefaultConfig\<lparr>RollingPolicy := VolumeRolling, RollingVolumeSize := s\<rparr>"



text \<open>
  A file system with the active file \<open>log/app.log\<close> (inode 0, open as handle 1), two
  historical files and no injected faults, and a writer on it.
\<close>

definition sample_os :: os_state where
  "sample_os =
     \<lparr> names = (\<lambda>p. None)(''log/app.log'' := Some 0, ''log/app.log.1'' := Some 2,
                 ''log/app.log.2'' := Some 3),
       contents = (\<lambda>i. [])(0 := ''old''),
       handles = (\<lambda>f. None)(1 := Some 0),
       next_id = 4, faults = (\<lambda>call. None), logs = [], spawned = [] \<rparr>"

definition sample_config :: Config where
  "sample_config = NewDefaultConfig\<lparr>LogPath := ''log'', FileName := ''app'', MaxRemain := 2\<rparr>"

definition sample_writer :: Writer where
  "sample_writer =
     \<lparr> m = sample_manager, file = 1, absPath = ''log/app.log'', cf = sample_config,
       rollingfilech = Some \<lparr> cap = 2, items = [''log/app.log.1'', ''log/app.log.2''] \<rparr> \<rparr>"

definition sample_locked_writer :: LockedWriter where
  "sample_locked_writer =
     \<lparr> m = sample_manager, file = 1, absPath = ''log/app.log'', cf = sample_config,
       rollingfilech = None, mutex_held = False \<rparr>"

definition sample_buffer_writer :: BufferWriter where
  "sample_buffer_writer =
     \<lparr> m = sample_manager, file = 1, absPath = ''log/app.log'', cf = sample_config,
       rollingfilech = None, buf = [], swaping = 0 \<rparr>"

definition sample_async_writer :: AsynchronousWriter where
  "sample_async_writer =
     \<lparr> m = sample_manager, file = 1, absPath = ''log/app.log'', cf = sample_config,
       rollingfilech = None, ctx_closed = False, queue = [], consumer = AtSelect,
       closed = 0, pool = [] \<rparr>"

text \<open>The manager offering the name of a historical file on \<open>fire\<close>.\<close>

definition offering :: "string \<Rightarrow> 'a Writer_scheme \<Rightarrow> 'a Writer_scheme" where
  "offering hist w = w\<lparr>m := (m w)\<lparr>fire := Some hist\<rparr>\<rparr>"

text \<open>The same file system when opening the active path is refused (error number 13).\<close>

definition sample_os_open_denied :: os_state where
  "sample_os_open_denied =
     sample_os\<lparr>faults := (\<lambda>call. None)(CallOpenFile ''log/app.log'' := Some 13)\<rparr>"

text \<open>
  The file system when every write to handle 1 fails (error number 28, no space left), and a
  BufferWriter with threshold 2 that already holds two bytes.
\<close>

definition sample_os_disk_full :: os_state where
  "sample_os_disk_full = sample_os\<lparr>faults := (\<lambda>call. None)(CallWrite 1 := Some 28)\<rparr>"

definition sample_full_buffer_writer :: BufferWriter where
  "sample_full_buffer_writer =
     sample_buffer_writer\<lparr>cf := sample_config\<lparr>BufferWriterThreshold := 2\<rparr>, buf := ''ab''\<rparr>"


definition sample_async_failed :: AsynchronousWriter where
  "sample_async_failed = sample_async_writer\<lparr>consumer := SendingErr (OsError 28) ''lost''\<rparr>"

definition sample_async_one :: AsynchronousWriter where
  "sample_async_one = sample_async_writer\<lparr>queue := [''lost'']\<rparr>"

text \<open>A \<open>Time.Format\<close> that gives every instant the same tag.\<close>

definition sample_format :: "time \<Rightarrow> string \<Rightarrow> string" where
  "sample_format t layout = ''202401010000''"

text \<open>A cron library that parses every pattern.\<close>

definition accept_all :: "string \<Rightarrow> bool" where
  "accept_all p = True"

text \<open>
  The manager that \<open>NewManager\<close> makes at time 1000 for volume rolling with the size
  \<open>1K\<close>, and the same manager once its poller has found a file of 2000 bytes at time 2000:
  the poller is then blocked in its send, offering the name of the historical file.
\<close>

definition sample_polling_manager :: manager where
  "sample_polling_manager =
     \<lparr> thresholdSize = 1024, startAt = 1000, fire = None, cr_entries = [],
       cr_running = False, context_closed = False, poller = PollerRunning \<rparr>"

definition sample_blocked_manager :: manager where
  "sample_blocked_manager =
     sample_polling_manager\<lparr>startAt := 2000, fire := Some ''log/log.log.202401010000''\<rparr>"


section \<open>Properties of the size parser\<close>

lemma Contains_single: "Contains s [x] = (x \<in> set s)"
  by (induction s) auto

lemma Contains_Cons: "Contains s (x # xs) \<Longrightarrow> x \<in> set s"
  by (induction s) (auto split: if_splits)

lemma has_unit_iff:
  "has_unit s = (CHR ''K'' \<in> set s \<or> CHR ''M'' \<in> set s \<or> CHR ''G'' \<in> set s \<or> CHR ''T'' \<in> set s)"
  unfolding has_unit_def using Contains_Cons Contains_single by blast

lemma of_char_lt_256: "(of_char c :: nat) < 256"
  by (cases c) simp

lemma upper_char_eq:
  "(upper_char c = d) =
     (if 97 \<le> (of_char c :: nat) \<and> (of_char c :: nat) \<le> 122
      then (of_char c :: nat) = of_char d + 32 else c = d)"
proof (cases "97 \<le> (of_char c :: nat) \<and> (of_char c :: nat) \<le> 122")
  case True
  have "(of_char c :: nat) - 32 < 256"
    by (rule less_imp_diff_less) (rule of_char_lt_256)
  then have lt: "(of_char c :: nat) - 32 < 2 ^ 8"
    by simp
  have "(upper_char c = d) = (take_bit 8 ((of_char c :: nat) - 32) = of_char d)"
    using True by (simp add: upper_char_def Let_def char_of_eq_iff)
  also have "\<dots> = ((of_char c :: nat) - 32 = of_char d)"
    using lt by (simp add: take_bit_nat_eq_self)
  also have "\<dots> = ((of_char c :: nat) = of_char d + 32)"
    using True by auto
  finally show ?thesis using True by simp
next
  case False
  then have "upper_char c = c" by (auto simp: upper_char_def Let_def)
  then show ?thesis using False by auto
qed

lemma of_char_eq_num: "((of_char c :: nat) = of_char d) = (c = d)"
  by (rule of_char_eq_iff)

lemma upper_char_K: "(upper_char c = CHR ''K'') = (c = CHR ''k'' \<or> c = CHR ''K'')"
  using of_char_eq_num [of c "CHR ''k''"] of_char_eq_num [of c "CHR ''K''"]
  by (auto simp: upper_char_eq)

lemma upper_char_digit: "is_digit c \<Longrightarrow> upper_char c = c"
  by (simp add: upper_char_def is_digit_def Let_def)


lemma dec_fold_ge:
  "list_all is_digit ds \<Longrightarrow> 0 \<le> n \<Longrightarrow> n \<le> foldl (\<lambda>a c. a * 10 + digit_val c) n ds"
proof (induction ds arbitrary: n)
  case Nil
  then show ?case by simp
next
  case (Cons c cs)
  have d: "0 \<le> digit_val c" using Cons.prems(1) by (simp add: is_digit_def digit_val_def)
  have "n \<le> n * 10 + digit_val c" using Cons.prems(2) d by simp
  also have "\<dots> \<le> foldl (\<lambda>a c. a * 10 + digit_val c) (n * 10 + digit_val c) cs"
    using Cons.prems d by (intro Cons.IH) simp_all
  finally show ?case by simp
qed

lemma atoi_fast_loop_digits:
  "list_all is_digit ds \<Longrightarrow> atoi_fast_loop n ds = Some (foldl (\<lambda>a c. a * 10 + digit_val c) n ds)"
  by (induction ds arbitrary: n) simp_all

lemma parse_uint_loop_digits:
  "list_all is_digit ds \<Longrightarrow> 0 \<le> n \<Longrightarrow>
   foldl (\<lambda>a c. a * 10 + digit_val c) n ds \<le> maxUint64 \<Longrightarrow>
   parse_uint_loop n ds = (foldl (\<lambda>a c. a * 10 + digit_val c) n ds, None)"
proof (induction ds arbitrary: n)
  case Nil
  then show ?case by simp
next
  case (Cons c cs)
  let ?n1 = "n * 10 + digit_val c"
  have d: "0 \<le> digit_val c" using Cons.prems(1) by (simp add: is_digit_def digit_val_def)
  have n1: "0 \<le> ?n1" using Cons.prems(2) d by simp
  have "?n1 \<le> foldl (\<lambda>a c. a * 10 + digit_val c) ?n1 cs"
    using Cons.prems(1) n1 by (intro dec_fold_ge) simp_all
  then have le: "?n1 \<le> maxUint64" using Cons.prems(3) by simp
  then have "n < cutoff10" using d by (simp add: cutoff10_def maxUint64_def)
  then show ?case using Cons le n1 by (simp add: Let_def)
qed

lemma upper_char_M: "(upper_char c = CHR ''M'') = (c = CHR ''m'' \<or> c = CHR ''M'')"
  using of_char_eq_num [of c "CHR ''m''"] of_char_eq_num [of c "CHR ''M''"]
  by (auto simp: upper_char_eq)

lemma upper_char_G: "(upper_char c = CHR ''G'') = (c = CHR ''g'' \<or> c = CHR ''G'')"
  using of_char_eq_num [of c "CHR ''g''"] of_char_eq_num [of c "CHR ''G''"]
  by (auto simp: upper_char_eq)

lemma upper_char_T: "(upper_char c = CHR ''T'') = (c = CHR ''t'' \<or> c = CHR ''T'')"
  using of_char_eq_num [of c "CHR ''t''"] of_char_eq_num [of c "CHR ''T''"]
  by (auto simp: upper_char_eq)

lemma in_set_ToUpper: "(x \<in> set (ToUpper s)) = (\<exists>c \<in> set s. upper_char c = x)"
  unfolding ToUpper_def by (simp add: image_iff) metis

lemma bex_two: "(\<exists>c \<in> S. c = a \<or> c = b) = (a \<in> S \<or> b \<in> S)"
  by blast

lemma has_unit_ToUpper:
  "has_unit (ToUpper s) =
     (CHR ''k'' \<in> set s \<or> CHR ''K'' \<in> set s \<or> CHR ''m'' \<in> set s \<or> CHR ''M'' \<in> set s \<or>
      CHR ''g'' \<in> set s \<or> CHR ''G'' \<in> set s \<or> CHR ''t'' \<in> set s \<or> CHR ''T'' \<in> set s)"
proof -
  have K: "(CHR ''K'' \<in> set (ToUpper s)) = (CHR ''k'' \<in> set s \<or> CHR ''K'' \<in> set s)"
    unfolding in_set_ToUpper upper_char_K by (rule bex_two)
  have M: "(CHR ''M'' \<in> set (ToUpper s)) = (CHR ''m'' \<in> set s \<or> CHR ''M'' \<in> set s)"
    unfolding in_set_ToUpper upper_char_M by (rule bex_two)
  have G: "(CHR ''G'' \<in> set (ToUpper s)) = (CHR ''g'' \<in> set s \<or> CHR ''G'' \<in> set s)"
    unfolding in_set_ToUpper upper_char_G by (rule bex_two)
  have T: "(CHR ''T'' \<in> set (ToUpper s)) = (CHR ''t'' \<in> set s \<or> CHR ''T'' \<in> set s)"
    unfolding in_set_ToUpper upper_char_T by (rule bex_two)
  show ?thesis
    unfolding has_unit_iff K M G T by (simp only: disj_assoc)
qed


lemma ToUpper_digits: "list_all is_digit ds \<Longrightarrow> ToUpper ds = ds"
  by (induction ds) (simp_all add: ToUpper_def upper_char_digit)

lemma ToUpper_append: "ToUpper (a @ b) = ToUpper a @ ToUpper b"
  by (simp add: ToUpper_def)

lemma Atoi_digits:
  assumes "ds \<noteq> []" "list_all is_digit ds" "dec_value ds < 2 ^ 63"
  shows "Atoi ds = (dec_value ds, None)"
proof -
  obtain c cs where ds: "ds = c # cs" using assms(1) by (cases ds) auto
  have c: "is_digit c" using assms(2) ds by simp
  have ns: "c \<noteq> CHR ''-''" "c \<noteq> CHR ''+''"
    using c by (auto simp: is_digit_def)
  show ?thesis
  proof (cases "length ds < 19")
    case True
    then show ?thesis
      using ds ns assms(2) atoi_fast_loop_digits [of ds 0]
      by (simp add: Atoi_def dec_value_def)
  next
    case False
    have le: "dec_value ds \<le> maxUint64" using assms(3) by (simp add: maxUint64_def)
    have "parse_uint_loop 0 ds = (dec_value ds, None)"
      unfolding dec_value_def
      using assms(2) le by (intro parse_uint_loop_digits) (simp_all add: dec_value_def)
    then show ?thesis
      using False ds ns assms(3)
      by (simp add: Atoi_def ParseInt_def ParseUint_def)
  qed
qed

lemma dec_value_nonneg: "list_all is_digit ds \<Longrightarrow> 0 \<le> dec_value ds"
  unfolding dec_value_def using dec_fold_ge [of ds 0] by simp

lemma wrap_int64_id: "0 \<le> x \<Longrightarrow> x < 2 ^ 63 \<Longrightarrow> wrap_int64 x = x"
  by (simp add: wrap_int64_def)

lemma unit_values:
  "unit_fallthrough CaseK 1 = 1024"
  "unit_fallthrough CaseM 1 = 1024 ^ 2"
  "unit_fallthrough CaseG 1 = 1024 ^ 3"
  "unit_fallthrough CaseT 1 = 1024 ^ 4"
  by (simp_all add: unit_fallthrough_def case_K_def case_M_def case_G_def case_T_def wrap_int64_def)

lemma binary_multiplier_cases:
  "binary_multiplier U = Some k \<Longrightarrow>
     (U = ''K'' \<or> U = ''KB'' \<or> U = ''M'' \<or> U = ''MB'' \<or> U = ''G'' \<or> U = ''GB'' \<or> U = ''T'' \<or> U = ''TB'')"
  by (auto simp: binary_multiplier_def split: if_splits)

lemma ParseVolume_unit:
  assumes ds: "ds \<noteq> []" "list_all is_digit ds"
    and U: "binary_multiplier (ToUpper u) = Some k"
    and fit: "dec_value ds * k < 2 ^ 63"
    and s: "RollingVolumeSize c = ds @ u"
  shows "ParseVolume mg c = Inr (mg\<lparr>thresholdSize := dec_value ds * k\<rparr>)"
proof -
  let ?U = "ToUpper u"
  have up: "ToUpper (RollingVolumeSize c) = ds @ ?U"
    using s ds(2) by (simp add: ToUpper_append ToUpper_digits)
  have k1: "1024 \<le> k" using U by (auto simp: binary_multiplier_def split: if_splits)
  have nn: "0 \<le> dec_value ds" using ds(2) by (rule dec_value_nonneg)
  have "dec_value ds * 1 \<le> dec_value ds * k"
    using nn k1 by (intro mult_left_mono) simp_all
  then have small: "dec_value ds < 2 ^ 63" using fit by simp
  have at: "Atoi ds = (dec_value ds, None)" using ds small by (rule Atoi_digits)
  have nnk: "0 \<le> dec_value ds * k" using nn k1 by simp
  have w: "wrap_int64 (dec_value ds * k) = dec_value ds * k"
    using nnk fit by (rule wrap_int64_id)
  from binary_multiplier_cases [OF U]
  show ?thesis
  proof (elim disjE)
    assume "?U = ''K''"
    then show ?thesis using up at w U
      by (simp add: ParseVolume_def has_unit_iff slice_to_end_minus_def unit_entry_def
          unit_values binary_multiplier_def)
  next
    assume "?U = ''KB''"
    then show ?thesis using up at w U
      by (simp add: ParseVolume_def has_unit_iff slice_to_end_minus_def unit_entry_def
          unit_values binary_multiplier_def)
  next
    assume "?U = ''M''"
    then show ?thesis using up at w U
      by (simp add: ParseVolume_def has_unit_iff slice_to_end_minus_def unit_entry_def
          unit_values binary_multiplier_def)
  next
    assume "?U = ''MB''"
    then show ?thesis using up at w U
      by (simp add: ParseVolume_def has_unit_iff slice_to_end_minus_def unit_entry_def
          unit_values binary_multiplier_def)
  next
    assume "?U = ''G''"
    then show ?thesis using up at w U
      by (simp add: ParseVolume_def has_unit_iff slice_to_end_minus_def unit_entry_def
          unit_values binary_multiplier_def)
  next
    assume "?U = ''GB''"
    then show ?thesis using up at w U
      by (simp add: ParseVolume_def has_unit_iff slice_to_end_minus_def unit_entry_def
          unit_values binary_multiplier_def)
  next
    assume "?U = ''T''"
    then show ?thesis using up at w U
      by (simp add: ParseVolume_def has_unit_iff slice_to_end_minus_def unit_entry_def
          unit_values binary_multiplier_def)
  next
    assume "?U = ''TB''"
    then show ?thesis using up at w U
      by (simp add: ParseVolume_def has_unit_iff slice_to_end_minus_def unit_entry_def
          unit_values binary_multiplier_def)
  qed
qed

lemma ParseVolume_default:
  assumes "\<forall>ch \<in> set (RollingVolumeSize c). ch \<notin> set ''kKmMgGtT''"
  shows "ParseVolume mg c = Inr (mg\<lparr>thresholdSize := 1073741824\<rparr>)"
proof -
  have "\<not> has_unit (ToUpper (RollingVolumeSize c))"
    unfolding has_unit_ToUpper using assms by auto
  then show ?thesis by (simp add: ParseVolume_def)
qed

lemma ParseVolume_case_insensitive:
  "ToUpper (RollingVolumeSize c) = ToUpper (RollingVolumeSize c') \<Longrightarrow>
   ParseVolume mg c = ParseVolume mg c'"
  by (simp add: ParseVolume_def)

lemma ParseVolume_examples:
  "RollingVolumeSize c = ''1K'' \<Longrightarrow> ParseVolume mg c = Inr (mg\<lparr>thresholdSize := 1024\<rparr>)"
  "RollingVolumeSize c = ''2MB'' \<Longrightarrow> ParseVolume mg c = Inr (mg\<lparr>thresholdSize := 2097152\<rparr>)"
  "RollingVolumeSize c = ''3GB'' \<Longrightarrow> ParseVolume mg c = Inr (mg\<lparr>thresholdSize := 3221225472\<rparr>)"
  "RollingVolumeSize c = ''weird'' \<Longrightarrow> ParseVolume mg c = Inr (mg\<lparr>thresholdSize := 1073741824\<rparr>)"
proof -
  show "RollingVolumeSize c = ''1K'' \<Longrightarrow> ParseVolume mg c = Inr (mg\<lparr>thresholdSize := 1024\<rparr>)"
    using ParseVolume_unit [of "''1''" "''K''" 1024 c mg]
    by (simp add: is_digit_def dec_value_def digit_val_def binary_multiplier_def ToUpper_def upper_char_def)
  show "RollingVolumeSize c = ''2MB'' \<Longrightarrow> ParseVolume mg c = Inr (mg\<lparr>thresholdSize := 2097152\<rparr>)"
    using ParseVolume_unit [of "''2''" "''MB''" "1024 ^ 2" c mg]
    by (simp add: is_digit_def dec_value_def digit_val_def binary_multiplier_def ToUpper_def upper_char_def)
  show "RollingVolumeSize c = ''3GB'' \<Longrightarrow> ParseVolume mg c = Inr (mg\<lparr>thresholdSize := 3221225472\<rparr>)"
    using ParseVolume_unit [of "''3''" "''GB''" "1024 ^ 3" c mg]
    by (simp add: is_digit_def dec_value_def digit_val_def binary_multiplier_def ToUpper_def upper_char_def)
  show "RollingVolumeSize c = ''weird'' \<Longrightarrow> ParseVolume mg c = Inr (mg\<lparr>thresholdSize := 1073741824\<rparr>)"
    using ParseVolume_default [of c mg] by simp
qed

text \<open>
  Claim C4, as amended. ParseVolume is case-insensitive on ASCII size strings (two of them
  that differ only in case give the same result); a decimal number followed by K, M, G or T,
  in either case and with an optional B, gives the number times 1024, 1024^2, 1024^3 or
  1024^4 whenever that product is below 2^63; an ASCII string in which none of the letters
  K, M, G, T occurs, in either case, gives the default of 1 GiB; and "1K" gives 1024, "2MB"
  2097152, "3GB" 3221225472, "weird" 1073741824.
\<close>

theorem ParseVolume_units_and_default:
  "(\<forall>mg c c'. is_ascii (RollingVolumeSize c) \<and> is_ascii (RollingVolumeSize c') \<and>
       ToUpper (RollingVolumeSize c) = ToUpper (RollingVolumeSize c') \<longrightarrow>
       ParseVolume mg c = ParseVolume mg c') \<and>
   (\<forall>mg c ds u k. ds \<noteq> [] \<and> list_all is_digit ds \<and> binary_multiplier (ToUpper u) = Some k \<and>
       dec_value ds * k < 2 ^ 63 \<and> RollingVolumeSize c = ds @ u \<longrightarrow>
       ParseVolume mg c = Inr (mg\<lparr>thresholdSize := dec_value ds * k\<rparr>)) \<and>
   (\<forall>mg c. is_ascii (RollingVolumeSize c) \<and>
       (\<forall>ch \<in> set (RollingVolumeSize c). ch \<notin> set ''kKmMgGtT'') \<longrightarrow>
       ParseVolume mg c = Inr (mg\<lparr>thresholdSize := 1073741824\<rparr>)) \<and>
   (\<forall>mg c. RollingVolumeSize c = ''1K'' \<longrightarrow> ParseVolume mg c = Inr (mg\<lparr>thresholdSize := 1024\<rparr>)) \<and>
   (\<forall>mg c. RollingVolumeSize c = ''2MB'' \<longrightarrow> ParseVolume mg c = Inr (mg\<lparr>thresholdSize := 2097152\<rparr>)) \<and>
   (\<forall>mg c. RollingVolumeSize c = ''3GB'' \<longrightarrow>
       ParseVolume mg c = Inr (mg\<lparr>thresholdSize := 3221225472\<rparr>)) \<and>
   (\<forall>mg c. RollingVolumeSize c = ''weird'' \<longrightarrow>
       ParseVolume mg c = Inr (mg\<lparr>thresholdSize := 1073741824\<rparr>))"
proof (intro conjI allI impI)
  fix mg and c c' :: Config
  assume "is_ascii (RollingVolumeSize c) \<and> is_ascii (RollingVolumeSize c') \<and>
       ToUpper (RollingVolumeSize c) = ToUpper (RollingVolumeSize c')"
  then show "ParseVolume mg c = ParseVolume mg c'"
    by (intro ParseVolume_case_insensitive) simp
next
  fix mg and c :: Config and ds u k
  assume "ds \<noteq> [] \<and> list_all is_digit ds \<and> binary_multiplier (ToUpper u) = Some k \<and>
       dec_value ds * k < 2 ^ 63 \<and> RollingVolumeSize c = ds @ u"
  then show "ParseVolume mg c = Inr (mg\<lparr>thresholdSize := dec_value ds * k\<rparr>)"
    by (intro ParseVolume_unit [of ds u k c mg]) simp_all
next
  fix mg and c :: Config
  assume "is_ascii (RollingVolumeSize c) \<and>
       (\<forall>ch \<in> set (RollingVolumeSize c). ch \<notin> set ''kKmMgGtT'')"
  then show "ParseVolume mg c = Inr (mg\<lparr>thresholdSize := 1073741824\<rparr>)"
    by (intro ParseVolume_default [of c mg]) simp
qed (rule ParseVolume_examples, assumption)+

theorem ParseVolume_units_and_default_witness:
  "is_ascii ''100mb'' \<and> is_ascii ''100MB'' \<and> ToUpper ''100mb'' = ToUpper ''100MB'' \<and>
   ParseVolume sample_manager (volume_config ''100mb'') =
     ParseVolume sample_manager (volume_config ''100MB'') \<and>
   ''100'' \<noteq> [] \<and> list_all is_digit ''100'' \<and> binary_multiplier (ToUpper ''mb'') = Some 1048576 \<and>
   dec_value ''100'' * 1048576 < 2 ^ 63 \<and>
   ParseVolume sample_manager (volume_config ''100mb'') =
     Inr (sample_manager\<lparr>thresholdSize := 104857600\<rparr>) \<and>
   is_ascii ''5 xxxx'' \<and> list_all (\<lambda>ch. ch \<notin> set ''kKmMgGtT'') ''5 xxxx'' \<and>
   ParseVolume sample_manager (volume_config ''5 xxxx'') =
     Inr (sample_manager\<lparr>thresholdSize := 1073741824\<rparr>) \<and>
   ParseVolume sample_manager (volume_config ''1K'') = Inr (sample_manager\<lparr>thresholdSize := 1024\<rparr>) \<and>
   ParseVolume sample_manager (volume_config ''2MB'') =
     Inr (sample_manager\<lparr>thresholdSize := 2097152\<rparr>) \<and>
   ParseVolume sample_manager (volume_config ''3GB'') =
     Inr (sample_manager\<lparr>thresholdSize := 3221225472\<rparr>) \<and>
   ParseVolume sample_manager (volume_config ''weird'') =
     Inr (sample_manager\<lparr>thresholdSize := 1073741824\<rparr>)"
proof -
  have a1: "is_ascii ''100mb''" "is_ascii ''100MB''" "is_ascii ''5 xxxx''"
    by (simp_all add: is_ascii_def)
  have a2: "ToUpper ''100mb'' = ToUpper ''100MB''"
    by (simp add: ToUpper_def upper_char_def char_of_eq_iff)
  have b1: "list_all is_digit ''100''" by (simp add: is_digit_def)
  have b2: "binary_multiplier (ToUpper ''mb'') = Some 1048576"
    by (simp add: binary_multiplier_def ToUpper_def upper_char_def char_of_eq_iff)
  have b3: "dec_value ''100'' = 100" by (simp add: dec_value_def digit_val_def)
  have c1: "list_all (\<lambda>ch. ch \<notin> set ''kKmMgGtT'') ''5 xxxx''" by simp
  have rv: "\<And>s. RollingVolumeSize (volume_config s) = s"
    by (simp add: volume_config_def)
  note T = ParseVolume_units_and_default
  have A: "ParseVolume sample_manager (volume_config ''100mb'') =
     ParseVolume sample_manager (volume_config ''100MB'')"
    using T [THEN conjunct1, rule_format, of "volume_config ''100mb''" "volume_config ''100MB''" sample_manager]
      a1 a2 by (simp add: rv)
  have B: "ParseVolume sample_manager (volume_config ''100mb'') =
     Inr (sample_manager\<lparr>thresholdSize := 104857600\<rparr>)"
    using T [THEN conjunct2, THEN conjunct1, rule_format,
        of "''100''" "''mb''" 1048576 "volume_config ''100mb''" sample_manager] b1 b2 b3
    by (simp add: rv)
  have C: "ParseVolume sample_manager (volume_config ''5 xxxx'') =
     Inr (sample_manager\<lparr>thresholdSize := 1073741824\<rparr>)"
    using T [THEN conjunct2, THEN conjunct2, THEN conjunct1, rule_format,
        of "volume_config ''5 xxxx''" sample_manager] a1
    by (simp add: rv)
  have D: "ParseVolume sample_manager (volume_config ''1K'') = Inr (sample_manager\<lparr>thresholdSize := 1024\<rparr>)"
    using T [THEN conjunct2, THEN conjunct2, THEN conjunct2, THEN conjunct1, rule_format,
        of "volume_config ''1K''" sample_manager]
    by (simp add: rv)
  have E: "ParseVolume sample_manager (volume_config ''2MB'') =
      Inr (sample_manager\<lparr>thresholdSize := 2097152\<rparr>)"
    using T [THEN conjunct2, THEN conjunct2, THEN conjunct2, THEN conjunct2, THEN conjunct1,
        rule_format, of "volume_config ''2MB''" sample_manager]
    by (simp add: rv)
  have F: "ParseVolume sample_manager (volume_config ''3GB'') =
      Inr (sample_manager\<lparr>thresholdSize := 3221225472\<rparr>)"
    using T [THEN conjunct2, THEN conjunct2, THEN conjunct2, THEN conjunct2, THEN conjunct2,
        THEN conjunct1, rule_format, of "volume_config ''3GB''" sample_manager]
    by (simp add: rv)
  have G: "ParseVolume sample_manager (volume_config ''weird'') =
      Inr (sample_manager\<lparr>thresholdSize := 1073741824\<rparr>)"
    using T [THEN conjunct2, THEN conjunct2, THEN conjunct2, THEN conjunct2, THEN conjunct2,
        THEN conjunct2, rule_format, of "volume_config ''weird''" sample_manager]
    by (simp add: rv)
  show ?thesis using a1 a2 b1 b2 b3 c1 A B C D E F G by simp
qed

text \<open>
  Claim C4 as stated fails in two places. A string with no recognized unit is not given the
  default when one of the letters K, M, G, T occurs in it: the letter takes ParseVolume past
  the default, the bytes before the last one are no number, and the threshold is 0. And a
  number whose product with the multiplier is beyond the range of int64 does not give that
  product: it wraps around.
\<close>

theorem ParseVolume_unit_letter_inside_counterexample:
  "is_ascii ''ten'' \<and> binary_multiplier [last (ToUpper ''ten'')] = None \<and>
   ParseVolume sample_manager (volume_config ''ten'') = Inr (sample_manager\<lparr>thresholdSize := 0\<rparr>) \<and>
   is_ascii ''100 bytes'' \<and> binary_multiplier [last (ToUpper ''100 bytes'')] = None \<and>
   ParseVolume sample_manager (volume_config ''100 bytes'') =
     Inr (sample_manager\<lparr>thresholdSize := 0\<rparr>) \<and>
   is_ascii ''5 megs'' \<and> binary_multiplier [last (ToUpper ''5 megs'')] = None \<and>
   ParseVolume sample_manager (volume_config ''5 megs'') = Inr (sample_manager\<lparr>thresholdSize := 0\<rparr>) \<and>
   ParseVolume sample_manager (volume_config ''weird'') =
     Inr (sample_manager\<lparr>thresholdSize := 1073741824\<rparr>) \<and>
   list_all is_digit ''9007199254740993'' \<and> dec_value ''9007199254740993'' = 9007199254740993 \<and>
   binary_multiplier (ToUpper ''T'') = Some (1024 ^ 4) \<and>
   9007199254740993 * 1024 ^ 4 = (9903520314283043298704621568 :: int) \<and>
   ParseVolume sample_manager (volume_config ''9007199254740993T'') =
     Inr (sample_manager\<lparr>thresholdSize := 1099511627776\<rparr>)"
  by code_simp

lemma ParseInt_syntax_zero: "snd (ParseInt s) = Some ErrSyntax \<Longrightarrow> fst (ParseInt s) = 0"
  by (auto simp: ParseInt_def Let_def split: if_splits prod.splits)

lemma Atoi_syntax_zero: "snd (Atoi s) = Some ErrSyntax \<Longrightarrow> fst (Atoi s) = 0"
  by (auto simp: Atoi_def Let_def ParseInt_syntax_zero split: option.splits if_splits)

lemma has_unit_nonempty: "has_unit s \<Longrightarrow> s \<noteq> []"
  by (auto simp: has_unit_iff)

lemma has_unit_last_B:
  assumes "has_unit s" "last s = CHR ''B''"
  shows "2 \<le> length s"
proof (rule ccontr)
  assume "\<not> 2 \<le> length s"
  moreover have "s \<noteq> []" using assms(1) by (rule has_unit_nonempty)
  ultimately have "length s = Suc 0" by (cases s) (auto simp: not_less_eq_eq)
  then obtain x where "s = [x]" by (auto simp: length_Suc_conv)
  then show False using assms by (auto simp: has_unit_iff)
qed

lemma ParseVolume_has_unit:
  assumes "has_unit (ToUpper (RollingVolumeSize c))"
  shows "ParseVolume mg c =
    Inr (mg\<lparr>thresholdSize :=
      wrap_int64 (fst (Atoi (volume_lead (ToUpper (RollingVolumeSize c)))) *
        unit_fallthrough (unit_entry
          (if last (ToUpper (RollingVolumeSize c)) = CHR ''B''
           then drop (length (ToUpper (RollingVolumeSize c)) - 2) (ToUpper (RollingVolumeSize c))
           else [last (ToUpper (RollingVolumeSize c))])) 1)\<rparr>)"
proof -
  let ?s = "ToUpper (RollingVolumeSize c)"
  have ne: "?s \<noteq> []" using assms by (rule has_unit_nonempty)
  then have l1: "1 \<le> length ?s" by (cases ?s) auto
  show ?thesis
  proof (cases "last ?s = CHR ''B''")
    case True
    then have "2 \<le> length ?s" using assms has_unit_last_B by blast
    then show ?thesis using True assms ne l1
      by (simp add: ParseVolume_def slice_to_end_minus_def volume_lead_def Let_def)
  next
    case False
    then show ?thesis using assms ne l1
      by (simp add: ParseVolume_def slice_to_end_minus_def volume_lead_def Let_def)
  qed
qed

lemma ParseVolume_never_panics: "\<exists>m'. ParseVolume mg c = Inr m'"
proof (cases "has_unit (ToUpper (RollingVolumeSize c))")
  case True
  then show ?thesis using ParseVolume_has_unit [of c mg] by simp
next
  case False
  then show ?thesis by (simp add: ParseVolume_def)
qed

lemma wrap_int64_zero: "wrap_int64 0 = 0"
  by (simp add: wrap_int64_def)

lemma ParseVolume_syntax_error:
  assumes "has_unit (ToUpper (RollingVolumeSize c))"
    and "snd (Atoi (volume_lead (ToUpper (RollingVolumeSize c)))) = Some ErrSyntax"
  shows "ParseVolume mg c = Inr (mg\<lparr>thresholdSize := 0\<rparr>)"
  using ParseVolume_has_unit [OF assms(1), of mg] Atoi_syntax_zero [OF assms(2)]
  by (simp add: wrap_int64_zero)


lemma NewManager_volume:
  assumes "RollingPolicy c = VolumeRolling" and "ParseVolume m0 c = Inr (m0\<lparr>thresholdSize := t\<rparr>)"
    and "m0 = \<lparr> thresholdSize = 0, startAt = now, fire = None, cr_entries = [],
                 cr_running = False, context_closed = False, poller = NoPoller \<rparr>"
  shows "NewManager cron_accepts now c = Inr (Inr (m0\<lparr>thresholdSize := t, poller := PollerRunning\<rparr>))"
  using assms by (simp add: NewManager_def VolumeRolling_def TimeRolling_def)

lemma poller_select_fires:
  assumes "poller mg = PollerRunning" "fire mg = None" "\<not> context_closed mg" "thresholdSize mg < sz"
  shows "fire (poller_select Format now c take_context True (Some sz) mg) =
           Some (fst (GenLogFileName Format now mg c))"
  using assms by (simp add: poller_select_def GenLogFileName_def Let_def)

text \<open>
  Claim C10, as amended. For an ASCII size string that holds one of the letters K, M, G, T
  (in either case) and whose leading characters make \<open>strconv.Atoi\<close> report a syntax error,
  ParseVolume drops the error and sets the threshold to 0 instead of the 1 GiB default; a
  manager made for volume rolling from such a configuration then offers a rotation at every
  poll that finds a file of positive size. Of a size string on which \<open>Atoi\<close> reports a
  range error the statement says nothing.
\<close>

theorem ParseVolume_unparsed_number_is_zero:
  assumes "is_ascii (RollingVolumeSize c)"
    and "\<exists>ch \<in> set (RollingVolumeSize c). ch \<in> set ''kKmMgGtT''"
    and "snd (Atoi (volume_lead (ToUpper (RollingVolumeSize c)))) = Some ErrSyntax"
  shows "ParseVolume mg c = Inr (mg\<lparr>thresholdSize := 0\<rparr>) \<and>
         (RollingPolicy c = VolumeRolling \<longrightarrow>
           (\<exists>m'. NewManager cron_accepts now c = Inr (Inr m') \<and> thresholdSize m' = 0 \<and>
              (\<forall>sz now' take_context. 0 < sz \<longrightarrow>
                 fire (poller_select Format now' c take_context True (Some sz) m') =
                   Some (fst (GenLogFileName Format now' m' c)))))"
proof -
  have hu: "has_unit (ToUpper (RollingVolumeSize c))"
    unfolding has_unit_ToUpper using assms(2) by auto
  have pv: "\<And>mg. ParseVolume mg c = Inr (mg\<lparr>thresholdSize := 0\<rparr>)"
    using hu assms(3) by (rule ParseVolume_syntax_error)
  have "\<exists>m'. NewManager cron_accepts now c = Inr (Inr m') \<and> thresholdSize m' = 0 \<and>
              (\<forall>sz now' take_context. 0 < sz \<longrightarrow>
                 fire (poller_select Format now' c take_context True (Some sz) m') =
                   Some (fst (GenLogFileName Format now' m' c)))"
    if vr: "RollingPolicy c = VolumeRolling"
  proof -
    let ?m0 = "\<lparr> thresholdSize = 0, startAt = now, fire = None, cr_entries = [],
                 cr_running = False, context_closed = False, poller = NoPoller \<rparr>"
    let ?m' = "?m0\<lparr>thresholdSize := 0, poller := PollerRunning\<rparr>"
    have nm: "NewManager cron_accepts now c = Inr (Inr ?m')"
      using vr pv [of ?m0] by (rule NewManager_volume) simp
    have "fire (poller_select Format now' c take_context True (Some sz) ?m') =
                   Some (fst (GenLogFileName Format now' ?m' c))" if "0 < sz" for sz now' take_context
      using that by (intro poller_select_fires) simp_all
    then show ?thesis using nm by simp
  qed
  then show ?thesis using pv by blast
qed

theorem ParseVolume_unparsed_number_is_zero_witness:
  "is_ascii ''KIND'' \<and> (\<exists>ch \<in> set ''KIND''. ch \<in> set ''kKmMgGtT'') \<and>
   snd (Atoi (volume_lead (ToUpper ''KIND''))) = Some ErrSyntax \<and>
   ParseVolume sample_manager (volume_config ''KIND'') = Inr (sample_manager\<lparr>thresholdSize := 0\<rparr>) \<and>
   RollingPolicy (volume_config ''KIND'') = VolumeRolling \<and>
   (\<exists>m'. NewManager (\<lambda>p. True) 1000 (volume_config ''KIND'') = Inr (Inr m') \<and> thresholdSize m' = 0 \<and>
      fire (poller_select (\<lambda>t layout. layout) 2000 (volume_config ''KIND'') False True (Some 1) m') =
        Some (fst (GenLogFileName (\<lambda>t layout. layout) 2000 m' (volume_config ''KIND''))))"
proof -
  have rv: "RollingVolumeSize (volume_config ''KIND'') = ''KIND''"
    "RollingPolicy (volume_config ''KIND'') = VolumeRolling"
    by (simp_all add: volume_config_def)
  have h1: "is_ascii ''KIND''" by (simp add: is_ascii_def)
  have h2: "\<exists>ch \<in> set ''KIND''. ch \<in> set ''kKmMgGtT''" by simp
  have h3: "snd (Atoi (volume_lead (ToUpper ''KIND''))) = Some ErrSyntax"
    by (simp add: ToUpper_def upper_char_def volume_lead_def Atoi_def is_digit_def)
  note T = ParseVolume_unparsed_number_is_zero [of "volume_config ''KIND''" sample_manager
      "\<lambda>p. True" 1000 "\<lambda>t layout. layout", unfolded rv, OF h1 h2 h3]
  from T have A: "ParseVolume sample_manager (volume_config ''KIND'') =
      Inr (sample_manager\<lparr>thresholdSize := 0\<rparr>)" by blast
  from T rv(2) obtain m' where
    B: "NewManager (\<lambda>p. True) 1000 (volume_config ''KIND'') = Inr (Inr m')" "thresholdSize m' = 0"
    and C: "\<forall>sz now' take_context. 0 < sz \<longrightarrow>
                 fire (poller_select (\<lambda>t layout. layout) now' (volume_config ''KIND'') take_context True (Some sz) m') =
                   Some (fst (GenLogFileName (\<lambda>t layout. layout) now' m' (volume_config ''KIND'')))"
    by blast
  from C have "fire (poller_select (\<lambda>t layout. layout) 2000 (volume_config ''KIND'') False True (Some 1) m') =
        Some (fst (GenLogFileName (\<lambda>t layout. layout) 2000 m' (volume_config ''KIND'')))"
    by simp
  then show ?thesis using h1 h2 h3 A B rv(2) by blast
qed

text \<open>
  Claim C10 as stated fails where the leading characters begin with a run of digits that
  overflows before the first byte that is no digit: \<open>Atoi\<close> then reports a range error with
  the largest int64, and the product with 1024 wraps to -1024.
\<close>

theorem ParseVolume_overflow_counterexample:
  "is_ascii ''99999999999999999999XK'' \<and>
   has_unit (ToUpper ''99999999999999999999XK'') \<and>
   volume_lead (ToUpper ''99999999999999999999XK'') = ''99999999999999999999X'' \<and>
   \<not> list_all is_digit ''99999999999999999999X'' \<and>
   Atoi ''99999999999999999999X'' = (9223372036854775807, Some ErrRange) \<and>
   ParseVolume sample_manager (volume_config ''99999999999999999999XK'') =
     Inr (sample_manager\<lparr>thresholdSize := - 1024\<rparr>)"
  by code_simp

section \<open>Properties of the rotation manager\<close>

lemma Close_manager_first:
  "\<not> context_closed mg \<Longrightarrow>
   Close_manager mg = Inr (mg\<lparr>context_closed := True, cr_running := False\<rparr>)"
  by (simp add: Close_manager_def)

lemma NewManager_context_open:
  "NewManager cron_accepts now c = Inr (Inr mg) \<Longrightarrow> \<not> context_closed mg"
proof -
  assume a: "NewManager cron_accepts now c = Inr (Inr mg)"
  let ?m0 = "\<lparr> thresholdSize = 0, startAt = now, fire = None, cr_entries = [],
                 cr_running = False, context_closed = False, poller = NoPoller \<rparr>"
  obtain m1 where pv: "ParseVolume ?m0 c = Inr m1"
    using ParseVolume_never_panics by blast
  have "\<not> context_closed m1"
  proof (cases "has_unit (ToUpper (RollingVolumeSize c))")
    case True
    then show ?thesis using pv ParseVolume_has_unit [of c ?m0] by auto
  next
    case False
    then show ?thesis using pv by (auto simp: ParseVolume_def)
  qed
  then show ?thesis using a pv
    by (auto simp: NewManager_def Let_def split: if_splits)
qed

lemma poller_select_blocked:
  "fire mg \<noteq> None \<Longrightarrow> poller_select Format now c take_context tick stat mg = mg"
  by (simp add: poller_select_def)

lemma poller_select_exits:
  assumes "poller mg = PollerRunning" "fire mg = None" "context_closed mg" "take_context \<or> \<not> tick"
  shows "poller_select Format now c take_context tick stat mg = mg\<lparr>poller := PollerExited\<rparr>"
  using assms by (auto simp: poller_select_def)

text \<open>
  Claim C3, as amended. A call of Close that returns has closed the termination channel and
  stopped the cron scheduler. A poller that waits at its select then leaves its loop at the
  pass in which the select takes the termination case (every pass with no tick due, and a
  pass with a tick due when the scheduler chooses so). A poller that is blocked in its send
  on \<open>fire\<close> is not stopped: no pass of its own changes anything, and it leaves its loop
  only after a writer has received the name. Every later call of Close panics with "close of
  closed channel". Close returns on every manager that NewManager has made.
\<close>

theorem Close_manager_twice_panics:
  "(\<forall>mg m'. Close_manager mg = Inr m' \<longrightarrow>
      context_closed m' \<and> \<not> cr_running m' \<and>
      (poller mg = PollerRunning \<and> fire mg = None \<longrightarrow>
         poller (poller_select Format now c True tick stat m') = PollerExited \<and>
         poller (poller_select Format now c take_context False stat m') = PollerExited) \<and>
      (poller mg = PollerRunning \<and> fire mg \<noteq> None \<longrightarrow>
         poller_select Format now c take_context tick stat m' = m' \<and>
         poller m' = PollerRunning \<and>
         (\<forall>w :: Writer. m w = m' \<longrightarrow>
            (\<exists>hist w1. poll_fire w = Some (hist, w1) \<and> fire mg = Some hist \<and>
               poller (poller_select Format now c True tick stat (m w1)) = PollerExited \<and>
               poller (poller_select Format now c take_context False stat (m w1)) = PollerExited))) \<and>
      Close_manager m' = Inl CloseOfClosedChannel) \<and>
   (\<forall>mg. NewManager cron_accepts now c = Inr (Inr mg) \<longrightarrow> (\<exists>m'. Close_manager mg = Inr m'))"
proof (intro conjI allI impI)
  fix mg m'
  assume a: "Close_manager mg = Inr m'"
  then have m': "m' = mg\<lparr>context_closed := True, cr_running := False\<rparr>"
    by (auto simp: Close_manager_def split: if_splits)
  show "context_closed m'" "\<not> cr_running m'" using m' by simp_all
  show "Close_manager m' = Inl CloseOfClosedChannel" using m' by (simp add: Close_manager_def)
  {
    assume "poller mg = PollerRunning \<and> fire mg = None"
    then show "poller (poller_select Format now c True tick stat m') = PollerExited"
      and "poller (poller_select Format now c take_context False stat m') = PollerExited"
      using m' by (simp_all add: poller_select_exits)
  }
  assume b: "poller mg = PollerRunning \<and> fire mg \<noteq> None"
  then show "poller_select Format now c take_context tick stat m' = m'"
    using m' by (simp add: poller_select_blocked)
  show "poller m' = PollerRunning" using b m' by simp
  fix w :: Writer
  assume w: "m w = m'"
  from b obtain hist where h: "fire mg = Some hist" by auto
  let ?w1 = "w\<lparr>m := (m w)\<lparr>fire := None\<rparr>\<rparr>"
  have pf: "poll_fire w = Some (hist, ?w1)"
    using w m' h by (simp add: poll_fire_def)
  have e1: "poller (poller_select Format now c True tick stat (m ?w1)) = PollerExited"
    using w m' b by (simp add: poller_select_exits)
  have e2: "poller (poller_select Format now c take_context False stat (m ?w1)) = PollerExited"
    using w m' b by (simp add: poller_select_exits)
  show "\<exists>hist w1. poll_fire w = Some (hist, w1) \<and> fire mg = Some hist \<and>
               poller (poller_select Format now c True tick stat (m w1)) = PollerExited \<and>
               poller (poller_select Format now c take_context False stat (m w1)) = PollerExited"
    using pf h e1 e2 by blast
next
  fix mg
  assume "NewManager cron_accepts now c = Inr (Inr mg)"
  then have "\<not> context_closed mg" by (rule NewManager_context_open)
  then show "\<exists>m'. Close_manager mg = Inr m'" by (simp add: Close_manager_def)
qed

theorem Close_manager_twice_panics_witness:
  "NewManager accept_all 1000 (volume_config ''1K'') = Inr (Inr sample_polling_manager) \<and>
   poller sample_polling_manager = PollerRunning \<and> fire sample_polling_manager = None \<and>
   Close_manager sample_polling_manager =
     Inr (sample_polling_manager\<lparr>context_closed := True, cr_running := False\<rparr>) \<and>
   poller (poller_select sample_format 3000 (volume_config ''1K'') True True (Some 5)
     (sample_polling_manager\<lparr>context_closed := True, cr_running := False\<rparr>)) = PollerExited \<and>
   poller (poller_select sample_format 3000 (volume_config ''1K'') False False (Some 5)
     (sample_polling_manager\<lparr>context_closed := True, cr_running := False\<rparr>)) = PollerExited \<and>
   Close_manager (sample_polling_manager\<lparr>context_closed := True, cr_running := False\<rparr>)
     = Inl CloseOfClosedChannel \<and>
   poller sample_blocked_manager = PollerRunning \<and> fire sample_blocked_manager \<noteq> None \<and>
   Close_manager sample_blocked_manager =
     Inr (sample_blocked_manager\<lparr>context_closed := True, cr_running := False\<rparr>) \<and>
   poller_select sample_format 3000 (volume_config ''1K'') True True (Some 5)
     (sample_blocked_manager\<lparr>context_closed := True, cr_running := False\<rparr>)
     = sample_blocked_manager\<lparr>context_closed := True, cr_running := False\<rparr> \<and>
   m (sample_writer\<lparr>m := sample_blocked_manager\<lparr>context_closed := True, cr_running := False\<rparr>\<rparr>)
     = sample_blocked_manager\<lparr>context_closed := True, cr_running := False\<rparr> \<and>
   (\<exists>w1. poll_fire
            (sample_writer\<lparr>m := sample_blocked_manager\<lparr>context_closed := True, cr_running := False\<rparr>\<rparr>)
          = Some (''log/log.log.202401010000'', w1) \<and>
      poller (poller_select sample_format 3000 (volume_config ''1K'') True True (Some 5) (m w1))
        = PollerExited)"
proof -
  let ?c = "volume_config ''1K''"
  let ?m0 = "\<lparr> thresholdSize = 0, startAt = 1000, fire = None, cr_entries = [],
                 cr_running = False, context_closed = False, poller = NoPoller \<rparr>"
  let ?p' = "sample_polling_manager\<lparr>context_closed := True, cr_running := False\<rparr>"
  let ?b' = "sample_blocked_manager\<lparr>context_closed := True, cr_running := False\<rparr>"
  let ?w = "sample_writer\<lparr>m := ?b'\<rparr>"
  have rv: "RollingVolumeSize ?c = ''1K''" "RollingPolicy ?c = VolumeRolling"
    by (simp_all add: volume_config_def)
  have "ParseVolume ?m0 ?c = Inr (?m0\<lparr>thresholdSize := 1024\<rparr>)"
    using rv(1) by (rule ParseVolume_examples)
  with rv(2) have "NewManager accept_all 1000 ?c =
      Inr (Inr (?m0\<lparr>thresholdSize := 1024, poller := PollerRunning\<rparr>))"
    by (rule NewManager_volume) simp
  then have nm: "NewManager accept_all 1000 ?c = Inr (Inr sample_polling_manager)"
    by (simp add: sample_polling_manager_def)
  have p: "poller sample_polling_manager = PollerRunning" "fire sample_polling_manager = None"
    by (simp_all add: sample_polling_manager_def)
  have q: "poller sample_blocked_manager = PollerRunning" "fire sample_blocked_manager \<noteq> None"
    "fire sample_blocked_manager = Some ''log/log.log.202401010000''"
    by (simp_all add: sample_blocked_manager_def sample_polling_manager_def)
  have clp: "Close_manager sample_polling_manager = Inr ?p'"
    by (simp add: Close_manager_def sample_polling_manager_def)
  have clb: "Close_manager sample_blocked_manager = Inr ?b'"
    by (simp add: Close_manager_def sample_blocked_manager_def sample_polling_manager_def)
  have mw: "m ?w = ?b'" by simp
  note T = Close_manager_twice_panics [of sample_format 3000 ?c]
  note P = T [of True "Some 5" False accept_all, THEN conjunct1, rule_format, OF clp]
  have P1: "poller (poller_select sample_format 3000 ?c True True (Some 5) ?p') = PollerExited"
    using P p by blast
  have P2: "poller (poller_select sample_format 3000 ?c False False (Some 5) ?p') = PollerExited"
    using P p by blast
  have P3: "Close_manager ?p' = Inl CloseOfClosedChannel"
    using P by blast
  note B = T [of True "Some 5" True accept_all, THEN conjunct1, rule_format, OF clb]
  have B1: "poller_select sample_format 3000 ?c True True (Some 5) ?b' = ?b'"
    using B q by blast
  from B q mw obtain hist w1 where
    r: "poll_fire ?w = Some (hist, w1)" "fire sample_blocked_manager = Some hist"
      "poller (poller_select sample_format 3000 ?c True True (Some 5) (m w1)) = PollerExited"
    by blast
  from r(2) q(3) have "hist = ''log/log.log.202401010000''" by simp
  with r have B2: "\<exists>w1. poll_fire ?w = Some (''log/log.log.202401010000'', w1) \<and>
      poller (poller_select sample_format 3000 ?c True True (Some 5) (m w1)) = PollerExited"
    by blast
  show ?thesis
    by (intro conjI nm p clp P1 P2 P3 q(1) q(2) clb B1 mw B2)
qed

text \<open>
  Claim C3 as stated fails for a poller that is blocked in its send. The manager made for
  the size \<open>1K\<close> whose poller has found a file of 2000 bytes is offering a name; after
  Close, whatever the scheduler chooses, the poller has not left its loop.
\<close>

theorem Close_manager_blocked_poller_counterexample:
  "NewManager accept_all 1000 (volume_config ''1K'') = Inr (Inr sample_polling_manager) \<and>
   poller_select sample_format 2000 (volume_config ''1K'') False True (Some 2000)
     sample_polling_manager = sample_blocked_manager \<and>
   fire sample_blocked_manager = Some ''log/log.log.202401010000'' \<and>
   Close_manager sample_blocked_manager =
     Inr (sample_blocked_manager\<lparr>context_closed := True, cr_running := False\<rparr>) \<and>
   poller (sample_blocked_manager\<lparr>context_closed := True, cr_running := False\<rparr>) = PollerRunning \<and>
   poller (poller_select sample_format 3000 (volume_config ''1K'') True True (Some 2000)
     (sample_blocked_manager\<lparr>context_closed := True, cr_running := False\<rparr>)) = PollerRunning \<and>
   poller (poller_select sample_format 3000 (volume_config ''1K'') True False (Some 2000)
     (sample_blocked_manager\<lparr>context_closed := True, cr_running := False\<rparr>)) = PollerRunning \<and>
   poller (poller_select sample_format 3000 (volume_config ''1K'') False True (Some 2000)
     (sample_blocked_manager\<lparr>context_closed := True, cr_running := False\<rparr>)) = PollerRunning \<and>
   poller (poller_select sample_format 3000 (volume_config ''1K'') False False (Some 2000)
     (sample_blocked_manager\<lparr>context_closed := True, cr_running := False\<rparr>)) = PollerRunning"
  by code_simp

lemma Join_two: "a \<noteq> [] \<Longrightarrow> Join [a, b] = Clean (a @ ''/'' @ b)"
  by (simp add: Join_def)

text \<open>
  Claim C5, as amended. GenLogFileName returns \<open>path.Join\<close> of LogPath and
  \<open>FileName.log.gz.tag\<close> when Compress is set, of LogPath and \<open>FileName.log.tag\<close> otherwise,
  where the tag is the stored segment start formatted with TimeTagFormat, and it returns the
  manager with the segment start set to the current time. \<open>path.Join\<close> cleans the joined
  path: the result is the string \<open>LogPath/FileName.log[.gz].tag\<close> itself exactly when LogPath
  is not empty and that string is already clean.
\<close>

theorem GenLogFileName_joined_path:
  "GenLogFileName Format now mg c =
     (Join [LogPath c,
            FileName c @ (if Compress c then ''.log.gz.'' else ''.log.'') @
              Format (startAt mg) (TimeTagFormat c)],
      mg\<lparr>startAt := now\<rparr>) \<and>
   (LogPath c \<noteq> [] \<longrightarrow>
      (fst (GenLogFileName Format now mg c) =
         LogPath c @ ''/'' @ FileName c @ (if Compress c then ''.log.gz.'' else ''.log.'') @
           Format (startAt mg) (TimeTagFormat c))
      = (Clean (LogPath c @ ''/'' @ FileName c @ (if Compress c then ''.log.gz.'' else ''.log.'') @
           Format (startAt mg) (TimeTagFormat c)) =
         LogPath c @ ''/'' @ FileName c @ (if Compress c then ''.log.gz.'' else ''.log.'') @
           Format (startAt mg) (TimeTagFormat c)))"
  by (simp add: GenLogFileName_def Join_two)

theorem GenLogFileName_joined_path_witness:
  "LogPath (NewDefaultConfig\<lparr>LogPath := ''/var/log'', FileName := ''app'', Compress := True\<rparr>) \<noteq> [] \<and>
   Clean ''/var/log/app.log.gz.202401010000'' = ''/var/log/app.log.gz.202401010000'' \<and>
   GenLogFileName (\<lambda>t layout. ''202401010000'') 2000 sample_manager
     (NewDefaultConfig\<lparr>LogPath := ''/var/log'', FileName := ''app'', Compress := True\<rparr>) =
     (''/var/log/app.log.gz.202401010000'', sample_manager\<lparr>startAt := 2000\<rparr>)"
proof -
  let ?c = "NewDefaultConfig\<lparr>LogPath := ''/var/log'', FileName := ''app'', Compress := True\<rparr>"
  have f: "LogPath ?c = ''/var/log''" "FileName ?c = ''app''" "Compress ?c"
    by (simp_all add: NewDefaultConfig_def)
  have cl: "Clean ''/var/log/app.log.gz.202401010000'' = ''/var/log/app.log.gz.202401010000''"
    by code_simp
  note T = GenLogFileName_joined_path [of "\<lambda>t layout. ''202401010000''" 2000 sample_manager ?c]
  from T have snd: "snd (GenLogFileName (\<lambda>t layout. ''202401010000'') 2000 sample_manager ?c) =
      sample_manager\<lparr>startAt := 2000\<rparr>" by simp
  from T [THEN conjunct2] f cl
  have "fst (GenLogFileName (\<lambda>t layout. ''202401010000'') 2000 sample_manager ?c) =
      ''/var/log/app.log.gz.202401010000''" by simp
  with snd have "GenLogFileName (\<lambda>t layout. ''202401010000'') 2000 sample_manager ?c =
     (''/var/log/app.log.gz.202401010000'', sample_manager\<lparr>startAt := 2000\<rparr>)"
    by (simp add: prod_eq_iff)
  then show ?thesis using f cl by simp
qed

text \<open>
  Claim C5 as stated fails at the default configuration, whose LogPath is \<open>./log\<close>: the
  name that GenLogFileName returns starts with \<open>log/\<close>, not with \<open>./log/\<close>.
\<close>

theorem GenLogFileName_default_config_counterexample:
  "LogPath NewDefaultConfig @ ''/'' @ FileName NewDefaultConfig @ ''.log.'' @ ''202401010000''
     = ''./log/log.log.202401010000'' \<and>
   \<not> Compress NewDefaultConfig \<and>
   fst (GenLogFileName sample_format 2000 sample_manager NewDefaultConfig)
     = ''log/log.log.202401010000''"
  by code_simp

section \<open>Properties of the retention queue\<close>
















section \<open>Properties of Reopen and Write\<close>

lemma Reopen_cases:
  "Reopen hist w st =
     (case os_Rename (absPath w) hist st of
        (Some err, st1) \<Rightarrow> (Some err, w, st1)
      | (None, st1) \<Rightarrow>
          (case os_OpenFile (absPath w) st1 of
             (Inl err, st2) \<Rightarrow> (Some err, w, st2)
           | (Inr newfile, st2) \<Rightarrow>
               (None, w\<lparr>file := newfile\<rparr>, st2\<lparr>spawned := spawned st2 @ [(file w, hist)]\<rparr>)))"
  by (simp add: Reopen_def)

lemma Reopen_error_iff:
  "(fst (Reopen hist w st) = Some e) =
     (fst (os_Rename (absPath w) hist st) = Some e \<or>
      fst (os_Rename (absPath w) hist st) = None \<and>
      fst (os_OpenFile (absPath w) (snd (os_Rename (absPath w) hist st))) = Inl e)"
  by (auto simp: Reopen_def split: prod.splits option.splits sum.splits)

lemma os_Rename_keeps: "os_Rename old new st = (r, st1) \<Longrightarrow>
   contents st1 = contents st \<and> logs st1 = logs st \<and> spawned st1 = spawned st \<and>
   handles st1 = handles st \<and> faults st1 = faults st \<and> next_id st1 = next_id st"
  by (auto simp: os_Rename_def split: option.splits)

lemma os_OpenFile_error_keeps: "os_OpenFile path st = (Inl e, st1) \<Longrightarrow> st1 = st"
  by (auto simp: os_OpenFile_def split: option.splits)

lemma Reopen_error_keeps:
  assumes "Reopen hist w st = (Some e, w2, st2)"
  shows "w2 = w \<and> contents st2 = contents st \<and> handles st2 = handles st \<and>
         logs st2 = logs st \<and> spawned st2 = spawned st"
  using assms os_Rename_keeps [of "absPath w" hist st]
  by (auto simp: Reopen_def split: prod.splits option.splits sum.splits
      dest!: os_OpenFile_error_keeps)

lemma Reopen_keeps_logs: "Reopen hist w st = (r, w2, st2) \<Longrightarrow> logs st2 = logs st"
  using os_Rename_keeps [of "absPath w" hist st]
  by (auto simp: Reopen_def os_OpenFile_def split: prod.splits option.splits sum.splits)

lemma Reopen_depends_on:
  assumes "names st' = names st"
    and "faults st' (CallRename (absPath w) hist) = faults st (CallRename (absPath w) hist)"
    and "faults st' (CallOpenFile (absPath w)) = faults st (CallOpenFile (absPath w))"
  shows "fst (Reopen hist w st') = fst (Reopen hist w st)"
  using assms
  by (auto simp: Reopen_def os_Rename_def os_OpenFile_def split: prod.splits option.splits sum.splits)


lemma Reopen_same_path:
  assumes "absPath w' = absPath w"
  shows "fst (Reopen hist w' st) = fst (Reopen hist w st)"
  using assms by (auto simp: Reopen_def split: prod.splits option.splits sum.splits)

lemma Reopen_error_result:
  assumes "fst (Reopen hist w st) = Some e"
  shows "\<exists>st2. Reopen hist w st = (Some e, w, st2) \<and> contents st2 = contents st \<and>
           logs st2 = logs st \<and> spawned st2 = spawned st \<and> handles st2 = handles st"
proof -
  obtain r w2 st2 where R: "Reopen hist w st = (r, w2, st2)" by (cases "Reopen hist w st") auto
  then have "r = Some e" using assms by simp
  then show ?thesis using R Reopen_error_keeps [of hist w st e w2 st2] by simp
qed

lemma poll_fire_Some: "fire (m w) = Some hist \<Longrightarrow> poll_fire w = Some (hist, w\<lparr>m := (m w)\<lparr>fire := None\<rparr>\<rparr>)"
  by (simp add: poll_fire_def)

lemma poll_fire_None: "fire (m w) = None \<Longrightarrow> poll_fire w = None"
  by (simp add: poll_fire_def)

lemma Writer_Write_reopen_fails:
  assumes f: "fire (m w) = Some hist" and e: "fst (Reopen hist w st) = Some e"
  shows "\<exists>st2. Writer_Write b w st = ((0, Some e), w\<lparr>m := (m w)\<lparr>fire := None\<rparr>\<rparr>, st2) \<and>
           contents st2 = contents st \<and> logs st2 = logs st"
proof -
  let ?w1 = "w\<lparr>m := (m w)\<lparr>fire := None\<rparr>\<rparr>"
  have "fst (Reopen hist ?w1 st) = Some e"
    using e Reopen_same_path [of ?w1 w hist st] by simp
  then obtain st2 where "Reopen hist ?w1 st = (Some e, ?w1, st2)" "contents st2 = contents st"
      "logs st2 = logs st"
    using Reopen_error_result by blast
  then show ?thesis using poll_fire_Some [OF f] by (simp add: Writer_Write_def)
qed

lemma LockedWriter_Write_reopen_fails:
  assumes f: "fire (m w) = Some hist" and e: "fst (Reopen hist w st) = Some e"
    and free: "\<not> mutex_held w"
  shows "\<exists>st2. LockedWriter_Write b w st = Some ((0, Some e), w\<lparr>m := (m w)\<lparr>fire := None\<rparr>\<rparr>, st2) \<and>
           contents st2 = contents st \<and> logs st2 = logs st"
proof -
  let ?w0 = "w\<lparr>mutex_held := True\<rparr>"
  let ?w1 = "?w0\<lparr>m := (m ?w0)\<lparr>fire := None\<rparr>\<rparr>"
  have f0: "fire (m ?w0) = Some hist" using f by simp
  have "fst (Reopen hist ?w1 st) = Some e"
    using e Reopen_same_path [of ?w1 w hist st] by simp
  then obtain st2 where "Reopen hist ?w1 st = (Some e, ?w1, st2)" "contents st2 = contents st"
      "logs st2 = logs st"
    using Reopen_error_result by blast
  moreover have "?w1\<lparr>mutex_held := False\<rparr> = w\<lparr>m := (m w)\<lparr>fire := None\<rparr>\<rparr>"
    using free by simp
  ultimately show ?thesis using poll_fire_Some [OF f0] free
    by (simp add: LockedWriter_Write_def Let_def)
qed

lemma BufferWriter_Write_reopen_fails:
  assumes f: "fire (m w) = Some hist" and e: "fst (Reopen hist w st) = Some e"
  shows "\<exists>st2. BufferWriter_Write b w st = ((0, Some e), w\<lparr>m := (m w)\<lparr>fire := None\<rparr>\<rparr>, st2) \<and>
           contents st2 = contents st \<and> logs st2 = logs st"
proof -
  let ?w1 = "w\<lparr>m := (m w)\<lparr>fire := None\<rparr>\<rparr>"
  have "fst (Reopen hist ?w1 st) = Some e"
    using e Reopen_same_path [of ?w1 w hist st] by simp
  then obtain st2 where "Reopen hist ?w1 st = (Some e, ?w1, st2)" "contents st2 = contents st"
      "logs st2 = logs st"
    using Reopen_error_result by blast
  then show ?thesis using poll_fire_Some [OF f] by (simp add: BufferWriter_Write_def)
qed

text \<open>
  Claim C2. Reopen returns an error exactly when the rename of the active file fails, or the
  rename succeeds and the open of the fresh file fails, and it returns that error. Its result
  depends on the directory and on the faults of these two calls only: no failure of a close,
  a removal, a seek, a read or a write (the work of the goroutine, which returns nothing)
  changes it. When the Reopen of a Write fails, the Write of each of the three writers returns
  count 0 with that error, and no file's contents change (nor the buffer of a BufferWriter).
\<close>

theorem Reopen_error_only_from_rename_or_open:
  "((fst (Reopen hist w st) = Some e) =
      (fst (os_Rename (absPath w) hist st) = Some e \<or>
       fst (os_Rename (absPath w) hist st) = None \<and>
       fst (os_OpenFile (absPath w) (snd (os_Rename (absPath w) hist st))) = Inl e)) \<and>
   (\<forall>st'. names st' = names st \<and>
       faults st' (CallRename (absPath w) hist) = faults st (CallRename (absPath w) hist) \<and>
       faults st' (CallOpenFile (absPath w)) = faults st (CallOpenFile (absPath w)) \<longrightarrow>
       fst (Reopen hist w st') = fst (Reopen hist w st)) \<and>
   (\<forall>b (wr :: Writer). fire (m wr) = Some hist \<and> fst (Reopen hist wr st) = Some e \<longrightarrow>
       (\<exists>st2. Writer_Write b wr st = ((0, Some e), wr\<lparr>m := (m wr)\<lparr>fire := None\<rparr>\<rparr>, st2) \<and>
              contents st2 = contents st)) \<and>
   (\<forall>b (wl :: LockedWriter).
       \<not> mutex_held wl \<and> fire (m wl) = Some hist \<and> fst (Reopen hist wl st) = Some e \<longrightarrow>
       (\<exists>st2. LockedWriter_Write b wl st =
                 Some ((0, Some e), wl\<lparr>m := (m wl)\<lparr>fire := None\<rparr>\<rparr>, st2) \<and>
              contents st2 = contents st)) \<and>
   (\<forall>b (wb :: BufferWriter). fire (m wb) = Some hist \<and> fst (Reopen hist wb st) = Some e \<longrightarrow>
       (\<exists>st2. BufferWriter_Write b wb st = ((0, Some e), wb\<lparr>m := (m wb)\<lparr>fire := None\<rparr>\<rparr>, st2) \<and>
              contents st2 = contents st))"
proof (intro conjI allI impI)
  show "(fst (Reopen hist w st) = Some e) =
      (fst (os_Rename (absPath w) hist st) = Some e \<or>
       fst (os_Rename (absPath w) hist st) = None \<and>
       fst (os_OpenFile (absPath w) (snd (os_Rename (absPath w) hist st))) = Inl e)"
    by (rule Reopen_error_iff)
next
  fix st' :: os_state
  assume "names st' = names st \<and>
       faults st' (CallRename (absPath w) hist) = faults st (CallRename (absPath w) hist) \<and>
       faults st' (CallOpenFile (absPath w)) = faults st (CallOpenFile (absPath w))"
  then show "fst (Reopen hist w st') = fst (Reopen hist w st)"
    by (intro Reopen_depends_on) simp_all
next
  fix b and wr :: Writer
  assume "fire (m wr) = Some hist \<and> fst (Reopen hist wr st) = Some e"
  then show "\<exists>st2. Writer_Write b wr st = ((0, Some e), wr\<lparr>m := (m wr)\<lparr>fire := None\<rparr>\<rparr>, st2) \<and>
              contents st2 = contents st"
    using Writer_Write_reopen_fails [of wr hist st e b] by blast
next
  fix b and wl :: LockedWriter
  assume "\<not> mutex_held wl \<and> fire (m wl) = Some hist \<and> fst (Reopen hist wl st) = Some e"
  then show "\<exists>st2. LockedWriter_Write b wl st =
                 Some ((0, Some e), wl\<lparr>m := (m wl)\<lparr>fire := None\<rparr>\<rparr>, st2) \<and>
              contents st2 = contents st"
    using LockedWriter_Write_reopen_fails [of wl hist st e b] by blast
next
  fix b and wb :: BufferWriter
  assume "fire (m wb) = Some hist \<and> fst (Reopen hist wb st) = Some e"
  then show "\<exists>st2. BufferWriter_Write b wb st = ((0, Some e), wb\<lparr>m := (m wb)\<lparr>fire := None\<rparr>\<rparr>, st2) \<and>
              contents st2 = contents st"
    using BufferWriter_Write_reopen_fails [of wb hist st e b] by blast
qed


theorem Reopen_error_only_from_rename_or_open_witness:
  "fire (m (offering ''log/app.log.3'' sample_writer)) = Some ''log/app.log.3'' \<and>
   fst (os_Rename ''log/app.log'' ''log/app.log.3'' sample_os_open_denied) = None \<and>
   fst (os_OpenFile ''log/app.log''
          (snd (os_Rename ''log/app.log'' ''log/app.log.3'' sample_os_open_denied))) = Inl (OsError 13) \<and>
   fst (Reopen ''log/app.log.3'' (offering ''log/app.log.3'' sample_writer) sample_os_open_denied)
     = Some (OsError 13) \<and>
   (\<exists>st2. Writer_Write ''x'' (offering ''log/app.log.3'' sample_writer) sample_os_open_denied =
       ((0, Some (OsError 13)), sample_writer, st2) \<and>
       contents st2 = contents sample_os_open_denied)"
proof -
  let ?h = "''log/app.log.3''"
  let ?w = "offering ?h sample_writer"
  let ?st = sample_os_open_denied
  have ap: "absPath ?w = ''log/app.log''" by (simp add: offering_def sample_writer_def)
  have f: "fire (m ?w) = Some ?h" by (simp add: offering_def)
  have r: "fst (os_Rename ''log/app.log'' ?h ?st) = None"
    by (simp add: os_Rename_def sample_os_open_denied_def sample_os_def)
  have o: "fst (os_OpenFile ''log/app.log'' (snd (os_Rename ''log/app.log'' ?h ?st))) = Inl (OsError 13)"
    by (simp add: os_Rename_def os_OpenFile_def sample_os_open_denied_def sample_os_def)
  note T = Reopen_error_only_from_rename_or_open [of ?h ?w ?st "OsError 13"]
  from T [THEN conjunct1] r o ap
  have e: "fst (Reopen ?h ?w ?st) = Some (OsError 13)" by simp
  from T [THEN conjunct2, THEN conjunct2, THEN conjunct1, rule_format, of ?w "''x''"] f e
  obtain st2 where W: "Writer_Write ''x'' ?w ?st = ((0, Some (OsError 13)), ?w\<lparr>m := (m ?w)\<lparr>fire := None\<rparr>\<rparr>, st2)"
    and c: "contents st2 = contents ?st" by blast
  have restored: "?w\<lparr>m := (m ?w)\<lparr>fire := None\<rparr>\<rparr> = sample_writer"
    by (simp add: offering_def sample_writer_def sample_manager_def)
  show ?thesis using f r o e W c restored by auto
qed

section \<open>Properties of the buffered writer\<close>

lemma buffer_append_logs: "buffer_append b w st = (w1, st1) \<Longrightarrow> logs st1 = logs st"
  by (auto simp: buffer_append_def Let_def file_Write_def split: if_splits option.splits)

lemma BufferWriter_Write_no_rotation:
  assumes "fire (m w) = None"
  shows "BufferWriter_Write b w st =
    ((length b, None), fst (buffer_append b w st), snd (buffer_append b w st))"
  using assms by (simp add: BufferWriter_Write_def poll_fire_def split: prod.splits)

lemma BufferWriter_Write_count:
  assumes "fire (m w) = None \<or> (\<exists>hist. fire (m w) = Some hist \<and> fst (Reopen hist w st) = None)"
  shows "fst (BufferWriter_Write b w st) = (length b, None) \<and>
         logs (snd (snd (BufferWriter_Write b w st))) = logs st"
proof (cases "fire (m w)")
  case None
  then show ?thesis
    using buffer_append_logs [of b w st "fst (buffer_append b w st)" "snd (buffer_append b w st)"]
    by (simp add: BufferWriter_Write_def poll_fire_def split: prod.splits)
next
  case (Some hist)
  let ?w1 = "w\<lparr>m := (m w)\<lparr>fire := None\<rparr>\<rparr>"
  have "fst (Reopen hist w st) = None" using assms Some by auto
  then have "fst (Reopen hist ?w1 st) = None"
    using Reopen_same_path [of ?w1 w hist st] by simp
  then obtain w2 st2 where R: "Reopen hist ?w1 st = (None, w2, st2)"
    by (cases "Reopen hist ?w1 st") auto
  then have l2: "logs st2 = logs st" by (rule Reopen_keeps_logs)
  obtain w3 st3 where B: "buffer_append b w2 st2 = (w3, st3)"
    by (cases "buffer_append b w2 st2") auto
  then have "logs st3 = logs st2" by (rule buffer_append_logs)
  then show ?thesis using Some R B l2
    by (simp add: BufferWriter_Write_def poll_fire_def)
qed

lemma buffer_append_failed_flush:
  assumes over: "BufferWriterThreshold (cf w) < int (length (buf w @ b))" and idle: "swaping w = 0"
    and fail: "snd (fst (file_Write (file w) (buf w @ b) st)) \<noteq> None"
  shows "buffer_append b w st = (w\<lparr>buf := []\<rparr>, st)"
proof -
  have "snd (file_Write (file w) (buf w @ b) st) = st"
    using fail by (auto simp: file_Write_def split: option.splits)
  then show ?thesis using over idle by (simp add: buffer_append_def Let_def)
qed

text \<open>
  Claim C9. Whenever no pending rotation fails (none is pending, or the Reopen succeeds), the
  Write of a BufferWriter returns the length of the caller's bytes and no error, and logs
  nothing; this holds also when the write of the swapped-out buffer to the active file
  fails: then the call still returns (len(b), nil), the buffer is empty afterwards and no
  file has changed, so the failure (and the buffered bytes) are lost.
\<close>

theorem BufferWriter_Write_drops_flush_error:
  "(fire (m w) = None \<or> (\<exists>hist. fire (m w) = Some hist \<and> fst (Reopen hist w st) = None) \<longrightarrow>
      fst (BufferWriter_Write b w st) = (length b, None) \<and>
      logs (snd (snd (BufferWriter_Write b w st))) = logs st) \<and>
   (fire (m w) = None \<and> BufferWriterThreshold (cf w) < int (length (buf w @ b)) \<and> swaping w = 0 \<and>
    snd (fst (file_Write (file w) (buf w @ b) st)) \<noteq> None \<longrightarrow>
      BufferWriter_Write b w st = ((length b, None), w\<lparr>buf := []\<rparr>, st))"
proof (intro conjI impI)
  assume "fire (m w) = None \<or> (\<exists>hist. fire (m w) = Some hist \<and> fst (Reopen hist w st) = None)"
  then have r: "fst (BufferWriter_Write b w st) = (length b, None) \<and>
         logs (snd (snd (BufferWriter_Write b w st))) = logs st"
    by (rule BufferWriter_Write_count)
  from r show "fst (BufferWriter_Write b w st) = (length b, None)" by simp
  from r show "logs (snd (snd (BufferWriter_Write b w st))) = logs st" by simp
next
  assume a: "fire (m w) = None \<and> BufferWriterThreshold (cf w) < int (length (buf w @ b)) \<and>
    swaping w = 0 \<and> snd (fst (file_Write (file w) (buf w @ b) st)) \<noteq> None"
  then have "buffer_append b w st = (w\<lparr>buf := []\<rparr>, st)"
    by (intro buffer_append_failed_flush) simp_all
  then show "BufferWriter_Write b w st = ((length b, None), w\<lparr>buf := []\<rparr>, st)"
    using a BufferWriter_Write_no_rotation [of w b st] by simp
qed


theorem BufferWriter_Write_drops_flush_error_witness:
  "fire (m sample_full_buffer_writer) = None \<and>
   BufferWriterThreshold (cf sample_full_buffer_writer)
     < int (length (buf sample_full_buffer_writer @ ''c'')) \<and>
   swaping sample_full_buffer_writer = 0 \<and>
   fst (file_Write (file sample_full_buffer_writer) (buf sample_full_buffer_writer @ ''c'')
          sample_os_disk_full) = (0, Some (OsError 28)) \<and>
   BufferWriter_Write ''c'' sample_full_buffer_writer sample_os_disk_full =
     ((1, None), sample_full_buffer_writer\<lparr>buf := []\<rparr>, sample_os_disk_full) \<and>
   logs (snd (snd (BufferWriter_Write ''c'' sample_full_buffer_writer sample_os_disk_full))) = []"
proof -
  let ?w = sample_full_buffer_writer
  let ?st = sample_os_disk_full
  have f: "fire (m ?w) = None"
    by (simp add: sample_full_buffer_writer_def sample_buffer_writer_def sample_manager_def)
  have t: "BufferWriterThreshold (cf ?w) < int (length (buf ?w @ ''c''))"
    by (simp add: sample_full_buffer_writer_def sample_buffer_writer_def)
  have i: "swaping ?w = 0"
    by (simp add: sample_full_buffer_writer_def sample_buffer_writer_def)
  have x: "fst (file_Write (file ?w) (buf ?w @ ''c'') ?st) = (0, Some (OsError 28))"
    by (simp add: file_Write_def sample_full_buffer_writer_def sample_buffer_writer_def
        sample_os_disk_full_def sample_os_def)
  then have x': "snd (fst (file_Write (file ?w) (buf ?w @ ''c'') ?st)) \<noteq> None" by simp
  note T = BufferWriter_Write_drops_flush_error [of ?w ?st "''c''"]
  from T [THEN conjunct2] f t i x'
  have W: "BufferWriter_Write ''c'' ?w ?st = ((length ''c'', None), ?w\<lparr>buf := []\<rparr>, ?st)"
    by blast
  from T [THEN conjunct1] f
  have "logs (snd (snd (BufferWriter_Write ''c'' ?w ?st))) = logs ?st" by blast
  then have L: "logs (snd (snd (BufferWriter_Write ''c'' ?w ?st))) = []"
    by (simp add: sample_os_disk_full_def sample_os_def)
  show ?thesis using f t i x W L by simp
qed

section \<open>The poll at the head of Write\<close>

lemma Writer_Write_no_pending:
  "fire (m w) = None \<Longrightarrow>
   Writer_Write b w st = (fst (file_Write (file w) b st), w, snd (file_Write (file w) b st))"
  by (simp add: Writer_Write_def poll_fire_def split: prod.splits)

lemma Writer_Write_pending:
  "fire (m w) = Some hist \<Longrightarrow>
   Writer_Write b w st =
     (case Reopen hist (w\<lparr>m := (m w)\<lparr>fire := None\<rparr>\<rparr>) st of
        (Some err, w2, st2) \<Rightarrow> ((0, Some err), w2, st2)
      | (None, w2, st2) \<Rightarrow>
          (fst (file_Write (file w2) b st2), w2, snd (file_Write (file w2) b st2)))"
  by (simp add: Writer_Write_def poll_fire_def split: prod.splits option.splits)

lemma LockedWriter_Write_no_pending:
  "\<not> mutex_held w \<Longrightarrow> fire (m w) = None \<Longrightarrow>
   LockedWriter_Write b w st =
     Some (fst (file_Write (file w) b st), w, snd (file_Write (file w) b st))"
  by (simp add: LockedWriter_Write_def poll_fire_def Let_def split: prod.splits)

lemma LockedWriter_Write_pending:
  "\<not> mutex_held w \<Longrightarrow> fire (m w) = Some hist \<Longrightarrow>
   LockedWriter_Write b w st =
     (case Reopen hist (w\<lparr>m := (m w)\<lparr>fire := None\<rparr>\<rparr>) st of
        (Some err, w2, st2) \<Rightarrow> Some ((0, Some err), w2, st2)
      | (None, w2, st2) \<Rightarrow>
          Some (fst (file_Write (file w2) b st2), w2, snd (file_Write (file w2) b st2)))"
  by (auto simp: LockedWriter_Write_def poll_fire_def Let_def Reopen_def
      split: prod.splits option.splits sum.splits)

lemma BufferWriter_Write_pending:
  "fire (m w) = Some hist \<Longrightarrow>
   BufferWriter_Write b w st =
     (case Reopen hist (w\<lparr>m := (m w)\<lparr>fire := None\<rparr>\<rparr>) st of
        (Some err, w2, st2) \<Rightarrow> ((0, Some err), w2, st2)
      | (None, w2, st2) \<Rightarrow>
          ((length b, None), fst (buffer_append b w2 st2), snd (buffer_append b w2 st2)))"
  by (simp add: BufferWriter_Write_def poll_fire_def split: prod.splits option.splits)

lemma buffer_append_below:
  "\<not> (BufferWriterThreshold (cf w) < int (length (buf w @ b)) \<and> swaping w = 0) \<Longrightarrow>
   buffer_append b w st = (w\<lparr>buf := buf w @ b\<rparr>, st)"
  by (auto simp: buffer_append_def Let_def)

lemma buffer_append_flush:
  "BufferWriterThreshold (cf w) < int (length (buf w @ b)) \<Longrightarrow> swaping w = 0 \<Longrightarrow>
   buffer_append b w st = (w\<lparr>buf := []\<rparr>, snd (file_Write (file w) (buf w @ b) st))"
  by (simp add: buffer_append_def Let_def)

lemma rotation_moves_old_bytes:
  assumes act: "names st (absPath w) = Some i" and fresh: "i < next_id st"
    and ne: "hist \<noteq> absPath w"
    and nf: "faults st (CallRename (absPath w) hist) = None"
      "faults st (CallOpenFile (absPath w)) = None"
      "faults st (CallWrite (next_id st + 1)) = None"
    and f: "fire (m w) = Some hist"
  shows "\<exists>w2 st2. Writer_Write b w st = ((length b, None), w2, st2) \<and>
     fire (m w2) = None \<and> file w2 = next_id st + 1 \<and>
     names st2 hist = Some i \<and> contents st2 i = contents st i \<and>
     names st2 (absPath w) = Some (next_id st) \<and> handles st2 (file w2) = Some (next_id st) \<and>
     contents st2 (next_id st) = b \<and> spawned st2 = spawned st @ [(file w, hist)]"
  using assms
  by (simp add: Writer_Write_pending Reopen_def os_Rename_def os_OpenFile_def file_Write_def)


text \<open>
  Claim C1, as amended. Write of Writer, LockedWriter and BufferWriter first polls \<open>fire\<close>
  without waiting. With a file name pending it calls Reopen with that name before it handles
  the caller's bytes, and returns Reopen's error with count 0 if there is one; with none
  pending it goes on at once. Then Writer and LockedWriter write the bytes to the active
  file (after a rotation that is the fresh file: the bytes written before stay under the
  historical name). BufferWriter appends the bytes to its buffer, and writes the buffer to
  the active file only when it has grown beyond BufferWriterThreshold and no flush is in
  progress.
\<close>

theorem Write_polls_fire_first:
  "(\<forall>w :: Writer.
      (fire (m w) = None \<longrightarrow>
         Writer_Write b w st = (fst (file_Write (file w) b st), w, snd (file_Write (file w) b st))) \<and>
      (\<forall>hist. fire (m w) = Some hist \<longrightarrow>
         Writer_Write b w st =
           (case Reopen hist (w\<lparr>m := (m w)\<lparr>fire := None\<rparr>\<rparr>) st of
              (Some err, w2, st2) \<Rightarrow> ((0, Some err), w2, st2)
            | (None, w2, st2) \<Rightarrow>
                (fst (file_Write (file w2) b st2), w2, snd (file_Write (file w2) b st2))))) \<and>
   (\<forall>w :: LockedWriter. \<not> mutex_held w \<longrightarrow>
      (fire (m w) = None \<longrightarrow>
         LockedWriter_Write b w st =
           Some (fst (file_Write (file w) b st), w, snd (file_Write (file w) b st))) \<and>
      (\<forall>hist. fire (m w) = Some hist \<longrightarrow>
         LockedWriter_Write b w st =
           (case Reopen hist (w\<lparr>m := (m w)\<lparr>fire := None\<rparr>\<rparr>) st of
              (Some err, w2, st2) \<Rightarrow> Some ((0, Some err), w2, st2)
            | (None, w2, st2) \<Rightarrow>
                Some (fst (file_Write (file w2) b st2), w2, snd (file_Write (file w2) b st2))))) \<and>
   (\<forall>w :: BufferWriter.
      (fire (m w) = None \<longrightarrow>
         BufferWriter_Write b w st =
           ((length b, None), fst (buffer_append b w st), snd (buffer_append b w st))) \<and>
      (\<forall>hist. fire (m w) = Some hist \<longrightarrow>
         BufferWriter_Write b w st =
           (case Reopen hist (w\<lparr>m := (m w)\<lparr>fire := None\<rparr>\<rparr>) st of
              (Some err, w2, st2) \<Rightarrow> ((0, Some err), w2, st2)
            | (None, w2, st2) \<Rightarrow>
                ((length b, None), fst (buffer_append b w2 st2), snd (buffer_append b w2 st2)))) \<and>
      (BufferWriterThreshold (cf w) < int (length (buf w @ b)) \<and> swaping w = 0 \<longrightarrow>
         buffer_append b w st = (w\<lparr>buf := []\<rparr>, snd (file_Write (file w) (buf w @ b) st))) \<and>
      (\<not> (BufferWriterThreshold (cf w) < int (length (buf w @ b)) \<and> swaping w = 0) \<longrightarrow>
         buffer_append b w st = (w\<lparr>buf := buf w @ b\<rparr>, st))) \<and>
   (\<forall>(w :: Writer) hist i.
      fire (m w) = Some hist \<and> names st (absPath w) = Some i \<and> i < next_id st \<and>
      hist \<noteq> absPath w \<and> faults st (CallRename (absPath w) hist) = None \<and>
      faults st (CallOpenFile (absPath w)) = None \<and>
      faults st (CallWrite (next_id st + 1)) = None \<longrightarrow>
      (\<exists>w2 st2. Writer_Write b w st = ((length b, None), w2, st2) \<and>
         fire (m w2) = None \<and> names st2 hist = Some i \<and> contents st2 i = contents st i \<and>
         names st2 (absPath w) = Some (next_id st) \<and>
         handles st2 (file w2) = Some (next_id st) \<and> contents st2 (next_id st) = b \<and>
         spawned st2 = spawned st @ [(file w, hist)]))"
proof (intro conjI allI impI)
  fix w :: Writer and hist i
  assume "fire (m w) = Some hist \<and> names st (absPath w) = Some i \<and> i < next_id st \<and>
      hist \<noteq> absPath w \<and> faults st (CallRename (absPath w) hist) = None \<and>
      faults st (CallOpenFile (absPath w)) = None \<and>
      faults st (CallWrite (next_id st + 1)) = None"
  then show "\<exists>w2 st2. Writer_Write b w st = ((length b, None), w2, st2) \<and>
         fire (m w2) = None \<and> names st2 hist = Some i \<and> contents st2 i = contents st i \<and>
         names st2 (absPath w) = Some (next_id st) \<and>
         handles st2 (file w2) = Some (next_id st) \<and> contents st2 (next_id st) = b \<and>
         spawned st2 = spawned st @ [(file w, hist)]"
    using rotation_moves_old_bytes [of st w i hist b] by blast
qed (simp_all add: Writer_Write_no_pending Writer_Write_pending LockedWriter_Write_no_pending
    LockedWriter_Write_pending BufferWriter_Write_no_rotation BufferWriter_Write_pending
    buffer_append_flush buffer_append_below)

theorem Write_polls_fire_first_witness:
  "fire (m (offering ''log/app.log.3'' sample_writer)) = Some ''log/app.log.3'' \<and>
   names sample_os (absPath (offering ''log/app.log.3'' sample_writer)) = Some 0 \<and>
   0 < next_id sample_os \<and>
   ''log/app.log.3'' \<noteq> absPath (offering ''log/app.log.3'' sample_writer) \<and>
   faults sample_os (CallRename ''log/app.log'' ''log/app.log.3'') = None \<and>
   faults sample_os (CallOpenFile ''log/app.log'') = None \<and>
   faults sample_os (CallWrite 5) = None \<and>
   (\<exists>w2 st2. Writer_Write ''new'' (offering ''log/app.log.3'' sample_writer) sample_os =
        ((3, None), w2, st2) \<and>
      fire (m w2) = None \<and> names st2 ''log/app.log.3'' = Some 0 \<and> contents st2 0 = ''old'' \<and>
      names st2 ''log/app.log'' = Some 4 \<and> handles st2 (file w2) = Some 4 \<and>
      contents st2 4 = ''new'' \<and> spawned st2 = [(1, ''log/app.log.3'')])"
proof -
  let ?h = "''log/app.log.3''"
  let ?w = "offering ?h sample_writer"
  have ap: "absPath ?w = ''log/app.log''" "file ?w = 1"
    by (simp_all add: offering_def sample_writer_def)
  have f: "fire (m ?w) = Some ?h" by (simp add: offering_def)
  have o: "names sample_os ''log/app.log'' = Some 0" "next_id sample_os = 4"
    "faults sample_os (CallRename ''log/app.log'' ?h) = None"
    "faults sample_os (CallOpenFile ''log/app.log'') = None"
    "faults sample_os (CallWrite 5) = None" "contents sample_os 0 = ''old''"
    "spawned sample_os = []"
    by (simp_all add: sample_os_def)
  from Write_polls_fire_first [of "''new''" sample_os, THEN conjunct2, THEN conjunct2,
      THEN conjunct2, rule_format, of ?w ?h 0] f ap o
  obtain w2 st2 where "Writer_Write ''new'' ?w sample_os = ((length ''new'', None), w2, st2)"
      "fire (m w2) = None" "names st2 ?h = Some 0" "contents st2 0 = contents sample_os 0"
      "names st2 (absPath ?w) = Some (next_id sample_os)"
      "handles st2 (file w2) = Some (next_id sample_os)" "contents st2 (next_id sample_os) = ''new''"
      "spawned st2 = spawned sample_os @ [(file ?w, ?h)]"
    by auto
  then have "Writer_Write ''new'' ?w sample_os = ((3, None), w2, st2) \<and>
      fire (m w2) = None \<and> names st2 ''log/app.log.3'' = Some 0 \<and> contents st2 0 = ''old'' \<and>
      names st2 ''log/app.log'' = Some 4 \<and> handles st2 (file w2) = Some 4 \<and>
      contents st2 4 = ''new'' \<and> spawned st2 = [(1, ''log/app.log.3'')]"
    using ap o by simp
  then show ?thesis using f ap o by auto
qed

text \<open>
  Claim C1 as stated fails for the BufferWriter: with no file name pending and a buffer
  below the threshold, Write only appends the bytes to the buffer, and the active file and
  the whole file system stay as they were.
\<close>

theorem BufferWriter_Write_below_threshold_counterexample:
  "fire (m sample_buffer_writer) = None \<and>
   BufferWriter_Write ''a'' sample_buffer_writer sample_os =
     ((1, None), sample_buffer_writer\<lparr>buf := ''a''\<rparr>, sample_os) \<and>
   handles sample_os (file sample_buffer_writer) = Some 0 \<and>
   contents sample_os 0 = ''old''"
  by (simp add: BufferWriter_Write_no_rotation buffer_append_def Let_def
      sample_buffer_writer_def sample_manager_def sample_config_def NewDefaultConfig_def
      sample_os_def)

section \<open>Properties of the asynchronous writer\<close>

lemma Async_Write_closed:
  "closed w \<noteq> 0 \<Longrightarrow> AsynchronousWriter_Write pick b w st = Some ((0, Some ErrClosed), w, st)"
  by (simp add: AsynchronousWriter_Write_def)


lemma Async_Close_first:
  assumes "closed w = 0" "\<not> ctx_closed w"
  shows "AsynchronousWriter_Close w st =
    Inr (fst (file_Close (file w) (snd (snd (onClose_loop (file w) (queue w) (pool w) st)))),
         w\<lparr>closed := 1, ctx_closed := True,
           queue := fst (onClose_loop (file w) (queue w) (pool w) st),
           pool := fst (snd (onClose_loop (file w) (queue w) (pool w) st))\<rparr>,
         snd (file_Close (file w) (snd (snd (onClose_loop (file w) (queue w) (pool w) st)))))"
  using assms by (simp add: AsynchronousWriter_Close_def split: prod.splits)

lemma onClose_loop_logs: "logs (snd (snd (onClose_loop f q p st))) = logs st"
  by (induction q arbitrary: p st)
    (auto simp: file_Write_def split: option.splits prod.splits)



lemma file_Close_logs: "logs (snd (file_Close f st)) = logs st"
  by (auto simp: file_Close_def split: option.splits)







lemma writer_step_captures:
  assumes "consumer w = AtSelect" "\<not> (ctx_closed w \<and> take_ctx)" "queue w = x # q"
    and "file_Write (file w) x st = ((n, Some e), st1)"
  shows "writer_step take_ctx w st = (w\<lparr>queue := q, consumer := SendingErr e x\<rparr>, st1)"
  using assms by (auto simp: writer_step_def)

lemma Async_Write_relays:
  assumes "closed w = 0" "consumer w = SendingErr e x" "fire (m w) = None \<or> pick_err"
  shows "AsynchronousWriter_Write pick_err b w st =
           Some ((0, Some e), w\<lparr>consumer := AtSelect, pool := length x # pool w\<rparr>, st)"
  using assms by (auto simp: AsynchronousWriter_Write_def poll_fire_def Let_def split: option.splits)

lemma Async_Write_enqueues:
  assumes "closed w = 0" "consumer w = AtSelect" "fire (m w) = None" "length (queue w) < QueueSize"
  shows "AsynchronousWriter_Write pick_err b w st =
           Some ((length b, None), w\<lparr>queue := queue w @ [b], pool := snd (pool_Get (pool w))\<rparr>, st)"
  using assms by (simp add: AsynchronousWriter_Write_def poll_fire_def Let_def)

lemma Async_Close_drops_error:
  assumes "closed w = 0" "\<not> ctx_closed w" "consumer w = SendingErr e x"
  shows "\<exists>w1 st1. AsynchronousWriter_Close w st =
            Inr (fst (file_Close (file w)
                   (snd (snd (onClose_loop (file w) (queue w) (pool w) st)))), w1, st1) \<and>
           consumer w1 = SendingErr e x \<and> logs st1 = logs st \<and>
           writer_step t w1 st1 = (w1, st1)"
  using assms Async_Close_first [of w st]
  by (simp add: file_Close_logs onClose_loop_logs writer_step_def)

text \<open>
  Claim C8, as amended. A write that fails in the goroutine \<open>writer\<close> leaves it waiting to
  send the error. A Write on the open writer then receives the error, returning count 0 and
  that error and enqueueing nothing, whenever no rotation file name is pending or the
  \<open>select\<close> takes the error case; the goroutine goes on, and the Write after it enqueues its
  bytes as usual. When nothing receives the error before Close, Close returns what closing
  the file returns, logs nothing, and leaves the goroutine waiting with the error for ever.
\<close>

theorem writer_error_reaches_next_Write:
  "(consumer w = AtSelect \<and> \<not> (ctx_closed w \<and> take_ctx) \<and> queue w = x # q \<and>
    file_Write (file w) x st = ((n, Some e), st1) \<longrightarrow>
      writer_step take_ctx w st = (w\<lparr>queue := q, consumer := SendingErr e x\<rparr>, st1)) \<and>
   (closed w = 0 \<and> consumer w = SendingErr e x \<and> (fire (m w) = None \<or> pick_err) \<longrightarrow>
      AsynchronousWriter_Write pick_err b w st =
        Some ((0, Some e), w\<lparr>consumer := AtSelect, pool := length x # pool w\<rparr>, st) \<and>
      (fire (m w) = None \<and> length (queue w) < QueueSize \<longrightarrow>
         AsynchronousWriter_Write pick_err b (w\<lparr>consumer := AtSelect, pool := length x # pool w\<rparr>) st =
           Some ((length b, None),
                 w\<lparr>consumer := AtSelect, pool := pool w, queue := queue w @ [b]\<rparr>, st))) \<and>
   (closed w = 0 \<and> \<not> ctx_closed w \<and> consumer w = SendingErr e x \<longrightarrow>
      (\<exists>w1 st1. AsynchronousWriter_Close w st =
            Inr (fst (file_Close (file w)
                   (snd (snd (onClose_loop (file w) (queue w) (pool w) st)))), w1, st1) \<and>
           consumer w1 = SendingErr e x \<and> logs st1 = logs st \<and>
           writer_step take_ctx w1 st1 = (w1, st1) \<and>
           AsynchronousWriter_Write pick_err b w1 st1 = Some ((0, Some ErrClosed), w1, st1)))"
proof (intro conjI impI)
  assume "consumer w = AtSelect \<and> \<not> (ctx_closed w \<and> take_ctx) \<and> queue w = x # q \<and>
    file_Write (file w) x st = ((n, Some e), st1)"
  then show "writer_step take_ctx w st = (w\<lparr>queue := q, consumer := SendingErr e x\<rparr>, st1)"
    by (intro writer_step_captures) simp_all
next
  assume a: "closed w = 0 \<and> consumer w = SendingErr e x \<and> (fire (m w) = None \<or> pick_err)"
  then show "AsynchronousWriter_Write pick_err b w st =
        Some ((0, Some e), w\<lparr>consumer := AtSelect, pool := length x # pool w\<rparr>, st)"
    by (intro Async_Write_relays) simp_all
  assume "fire (m w) = None \<and> length (queue w) < QueueSize"
  then show "AsynchronousWriter_Write pick_err b (w\<lparr>consumer := AtSelect, pool := length x # pool w\<rparr>) st =
           Some ((length b, None),
                 w\<lparr>consumer := AtSelect, pool := pool w, queue := queue w @ [b]\<rparr>, st)"
    using a Async_Write_enqueues [of "w\<lparr>consumer := AtSelect, pool := length x # pool w\<rparr>" pick_err b st]
    by (simp add: pool_Get_def)
next
  assume a: "closed w = 0 \<and> \<not> ctx_closed w \<and> consumer w = SendingErr e x"
  then obtain w1 st1 where c: "AsynchronousWriter_Close w st =
            Inr (fst (file_Close (file w)
                   (snd (snd (onClose_loop (file w) (queue w) (pool w) st)))), w1, st1)"
    "consumer w1 = SendingErr e x" "logs st1 = logs st" "writer_step take_ctx w1 st1 = (w1, st1)"
    using Async_Close_drops_error [of w e x st take_ctx] by blast
  then have "closed w1 \<noteq> 0" using a Async_Close_first [of w st] by auto
  then have "AsynchronousWriter_Write pick_err b w1 st1 = Some ((0, Some ErrClosed), w1, st1)"
    by (rule Async_Write_closed)
  with c show "\<exists>w1 st1. AsynchronousWriter_Close w st =
            Inr (fst (file_Close (file w)
                   (snd (snd (onClose_loop (file w) (queue w) (pool w) st)))), w1, st1) \<and>
           consumer w1 = SendingErr e x \<and> logs st1 = logs st \<and>
           writer_step take_ctx w1 st1 = (w1, st1) \<and>
           AsynchronousWriter_Write pick_err b w1 st1 = Some ((0, Some ErrClosed), w1, st1)"
    by blast
qed


theorem writer_error_reaches_next_Write_witness:
  "consumer sample_async_one = AtSelect \<and> \<not> ctx_closed sample_async_one \<and>
   queue sample_async_one = [''lost''] \<and>
   file_Write (file sample_async_one) ''lost'' sample_os_disk_full =
     ((0, Some (OsError 28)), sample_os_disk_full) \<and>
   writer_step False sample_async_one sample_os_disk_full =
     (sample_async_failed, sample_os_disk_full) \<and>
   closed sample_async_failed = 0 \<and>
   consumer sample_async_failed = SendingErr (OsError 28) ''lost'' \<and>
   fire (m sample_async_failed) = None \<and>
   AsynchronousWriter_Write False ''x'' sample_async_failed sample_os_disk_full =
     Some ((0, Some (OsError 28)), sample_async_writer\<lparr>pool := [4]\<rparr>, sample_os_disk_full) \<and>
   length (queue sample_async_failed) < QueueSize \<and>
   AsynchronousWriter_Write False ''y'' (sample_async_writer\<lparr>pool := [4]\<rparr>) sample_os_disk_full =
     Some ((1, None), sample_async_writer\<lparr>queue := [''y'']\<rparr>, sample_os_disk_full) \<and>
   \<not> ctx_closed sample_async_failed \<and>
   (\<exists>w1 st1. AsynchronousWriter_Close sample_async_failed sample_os_disk_full =
        Inr (fst (file_Close (file sample_async_failed)
               (snd (snd (onClose_loop (file sample_async_failed) (queue sample_async_failed)
                  (pool sample_async_failed) sample_os_disk_full)))), w1, st1) \<and>
      consumer w1 = SendingErr (OsError 28) ''lost'' \<and>
      logs st1 = logs sample_os_disk_full \<and>
      writer_step True w1 st1 = (w1, st1) \<and>
      AsynchronousWriter_Write False ''x'' w1 st1 = Some ((0, Some ErrClosed), w1, st1))"
proof -
  let ?w0 = sample_async_one
  let ?st = sample_os_disk_full
  have a: "consumer ?w0 = AtSelect" "\<not> ctx_closed ?w0" "queue ?w0 = [''lost'']"
    by (simp_all add: sample_async_one_def sample_async_writer_def)
  have fw: "file_Write (file ?w0) ''lost'' ?st = ((0, Some (OsError 28)), ?st)"
    by (simp add: file_Write_def sample_async_one_def sample_async_writer_def
        sample_os_disk_full_def sample_os_def)
  note T = writer_error_reaches_next_Write
  from T [of ?w0 False "''lost''" "[]" ?st 0 "OsError 28" ?st, THEN conjunct1] a fw
  have s1: "writer_step False ?w0 ?st = (?w0\<lparr>queue := [], consumer := SendingErr (OsError 28) ''lost''\<rparr>, ?st)"
    by simp
  have eq: "?w0\<lparr>queue := [], consumer := SendingErr (OsError 28) ''lost''\<rparr> = sample_async_failed"
    by (simp add: sample_async_one_def sample_async_failed_def sample_async_writer_def)
  have b: "closed sample_async_failed = 0"
    "consumer sample_async_failed = SendingErr (OsError 28) ''lost''"
    "fire (m sample_async_failed) = None"
    by (simp_all add: sample_async_failed_def sample_async_writer_def sample_manager_def)
  from T [of sample_async_failed _ "''lost''" _ ?st _ "OsError 28" _ False "''x''",
      THEN conjunct2, THEN conjunct1] b
  have s2: "AsynchronousWriter_Write False ''x'' sample_async_failed ?st =
        Some ((0, Some (OsError 28)),
              sample_async_failed\<lparr>consumer := AtSelect, pool := length ''lost'' # pool sample_async_failed\<rparr>, ?st)"
    by simp
  have eq2: "sample_async_failed\<lparr>consumer := AtSelect, pool := length ''lost'' # pool sample_async_failed\<rparr>
      = sample_async_writer\<lparr>pool := [4]\<rparr>"
    by (simp add: sample_async_failed_def sample_async_writer_def)
  have c: "length (queue sample_async_failed) < QueueSize" "\<not> ctx_closed sample_async_failed"
    by (simp_all add: sample_async_failed_def sample_async_writer_def QueueSize_def)
  from T [of sample_async_failed _ "''lost''" _ ?st _ "OsError 28" _ False "''y''",
      THEN conjunct2, THEN conjunct1] b c
  have s3: "AsynchronousWriter_Write False ''y''
        (sample_async_failed\<lparr>consumer := AtSelect, pool := length ''lost'' # pool sample_async_failed\<rparr>) ?st =
        Some ((length ''y'', None),
              sample_async_failed\<lparr>consumer := AtSelect, pool := pool sample_async_failed,
                                  queue := queue sample_async_failed @ [''y'']\<rparr>, ?st)"
    by simp
  have eq3: "sample_async_failed\<lparr>consumer := AtSelect, pool := pool sample_async_failed,
                                  queue := queue sample_async_failed @ [''y'']\<rparr>
      = sample_async_writer\<lparr>queue := [''y'']\<rparr>"
    by (simp add: sample_async_failed_def sample_async_writer_def)
  from T [of sample_async_failed True "''lost''" _ ?st _ "OsError 28" _ False "''x''",
      THEN conjunct2, THEN conjunct2] b c
  have s4: "\<exists>w1 st1. AsynchronousWriter_Close sample_async_failed ?st =
        Inr (fst (file_Close (file sample_async_failed)
               (snd (snd (onClose_loop (file sample_async_failed) (queue sample_async_failed)
                  (pool sample_async_failed) ?st)))), w1, st1) \<and>
      consumer w1 = SendingErr (OsError 28) ''lost'' \<and>
      logs st1 = logs ?st \<and>
      writer_step True w1 st1 = (w1, st1) \<and>
      AsynchronousWriter_Write False ''x'' w1 st1 = Some ((0, Some ErrClosed), w1, st1)"
    by simp
  have s3': "AsynchronousWriter_Write False ''y'' (sample_async_writer\<lparr>pool := [4]\<rparr>) ?st =
     Some ((1, None), sample_async_writer\<lparr>queue := [''y'']\<rparr>, ?st)"
    using s3 eq2 eq3 by simp
  have s2': "AsynchronousWriter_Write False ''x'' sample_async_failed ?st =
     Some ((0, Some (OsError 28)), sample_async_writer\<lparr>pool := [4]\<rparr>, ?st)"
    using s2 eq2 by simp
  have s1': "writer_step False ?w0 ?st = (sample_async_failed, ?st)"
    using s1 eq by simp
  show ?thesis
    by (intro conjI a fw s1' b s2' c s3' s4)
qed

lemma enqueue_chunks_single:
  assumes "b \<noteq> []" "length b \<le> BufferSize" "length q < QueueSize"
  shows "enqueue_chunks b q [] = Some (q @ [b], [])"
proof -
  have "enqueue_chunks b q [] = enqueue_chunks [] (q @ [b]) []"
    using assms by (subst enqueue_chunks.simps) (simp add: pool_Get_def min_def)
  also have "\<dots> = Some (q @ [b], [])"
    by (subst enqueue_chunks.simps) simp
  finally show ?thesis .
qed

text \<open>
  Claim C8 as stated fails when a rotation file name is pending at the same time and the
  \<open>select\<close> takes that case: the next Write rotates, enqueues its bytes and returns their
  count and no error, and the goroutine still waits with its error.
\<close>

theorem Write_takes_rotation_before_error_counterexample:
  "closed (offering ''log/app.log.3'' sample_async_failed) = 0 \<and>
   consumer (offering ''log/app.log.3'' sample_async_failed) = SendingErr (OsError 28) ''lost'' \<and>
   fire (m (offering ''log/app.log.3'' sample_async_failed)) = Some ''log/app.log.3'' \<and>
   AsynchronousWriter_Write False ''x'' (offering ''log/app.log.3'' sample_async_failed) sample_os \<noteq> None \<and>
   fst (the (AsynchronousWriter_Write False ''x''
               (offering ''log/app.log.3'' sample_async_failed) sample_os)) = (1, None) \<and>
   consumer (fst (snd (the (AsynchronousWriter_Write False ''x''
               (offering ''log/app.log.3'' sample_async_failed) sample_os))))
     = SendingErr (OsError 28) ''lost'' \<and>
   queue (fst (snd (the (AsynchronousWriter_Write False ''x''
               (offering ''log/app.log.3'' sample_async_failed) sample_os)))) = [''x'']"
proof -
  have q: "enqueue_chunks ''x'' [] [] = Some ([''x''], [])"
    using enqueue_chunks_single [of "''x''" "[]"] by (simp add: BufferSize_def QueueSize_def)
  show ?thesis
    by (simp add: AsynchronousWriter_Write_def poll_fire_def offering_def Let_def
        sample_async_failed_def sample_async_writer_def sample_manager_def
        Reopen_def os_Rename_def os_OpenFile_def sample_os_def q)
qed

end
